theory Spec2Isabelle
  imports Complex_Main "HOL-Library.Log_Nat"
begin

section \<open>Numeric cells\<close>

text \<open>
  A numeric cell of a pandas column is a binary64 value: not-a-number, an infinity, a
  zero of either sign, or a non-zero finite number. \<open>Fin x\<close> is the finite cell of value
  \<open>x\<close>, with \<open>Fin 0\<close> the positive zero, and \<open>NZero\<close> is the negative zero. A missing
  numeric field of the CSV is \<open>NaN\<close>, which is also what pandas' \<open>isnull\<close> tests for in a
  numeric column.
\<close>

datatype fl = NaN | PInf | NInf | NZero | Fin rat

fun is_fin :: "fl \<Rightarrow> bool" where
  "is_fin (Fin x) = True"
| "is_fin NZero = True"
| "is_fin a = False"

fun fin_val :: "fl \<Rightarrow> rat" where
  "fin_val (Fin x) = x"
| "fin_val a = 0"

fun is_inf :: "fl \<Rightarrow> bool" where
  "is_inf PInf = True"
| "is_inf NInf = True"
| "is_inf a = False"

fun is_zero :: "fl \<Rightarrow> bool" where
  "is_zero (Fin x) = (x = 0)"
| "is_zero NZero = True"
| "is_zero a = False"

fun is_neg :: "fl \<Rightarrow> bool" where
  "is_neg (Fin x) = (x < 0)"
| "is_neg NZero = True"
| "is_neg NInf = True"
| "is_neg a = False"

definition inf_of :: "bool \<Rightarrow> fl" where
  "inf_of neg = (if neg then NInf else PInf)"

definition zero_of :: "bool \<Rightarrow> fl" where
  "zero_of neg = (if neg then NZero else Fin 0)"

subsection \<open>Rounding to binary64\<close>

text \<open>
  The arithmetic of the columns is IEEE 754 binary64 with round-to-nearest, ties to even.
  \<open>round64 q\<close> rounds the exact non-negative value \<open>q\<close>: the result has 53 significant
  bits at the exponent of \<open>q\<close> (not below the subnormal exponent \<open>- 1022\<close>), and is
  \<open>None\<close> when it reaches \<open>2 ^ 1024\<close>, which is overflow. \<open>ilog2 q\<close> is the exponent of
  a positive \<open>q\<close>, the integer \<open>e\<close> with \<open>2 ^ e \<le> q < 2 ^ (e + 1)\<close>.
\<close>

definition pow2 :: "int \<Rightarrow> rat" where
  "pow2 k = 2 powi k"

definition ilog2 :: "rat \<Rightarrow> int" where
  "ilog2 q =
     (let (a, b) = quotient_of q;
          k = bitlen a - bitlen b
      in if pow2 k \<le> q then k else k - 1)"

definition round_half_even :: "rat \<Rightarrow> int" where
  "round_half_even x =
     (let n = \<lfloor>x\<rfloor>; f = x - of_int n
      in if f < 1 / 2 then n
         else if 1 / 2 < f then n + 1
         else if even n then n else n + 1)"

definition round64 :: "rat \<Rightarrow> rat option" where
  "round64 q =
     (let e = max (ilog2 q) (- 1022);
          ulp = pow2 (e - 52);
          m = of_int (round_half_even (q / ulp)) * ulp
      in if pow2 1024 \<le> m then None else Some m)"

text \<open>The cell for an exact result of magnitude \<open>m\<close> and the given sign.\<close>

definition fl_round :: "bool \<Rightarrow> rat \<Rightarrow> fl" where
  "fl_round neg m =
     (case round64 m of
        None \<Rightarrow> inf_of neg
      | Some r \<Rightarrow> if r = 0 then zero_of neg else Fin (if neg then - r else r))"

subsection \<open>Division and multiplication\<close>

text \<open>
  Element-wise \<open>/\<close> and \<open>*\<close> of two numeric columns. Nothing raises. The sign of a result
  is the exclusive or of the operands' signs. A zero divisor gives an infinity, except
  that \<open>0 / 0\<close> gives \<open>NaN\<close>, as do \<open>inf / inf\<close> and \<open>0 * inf\<close>; a finite result is
  rounded, and is an infinity when it overflows.
\<close>

definition fdiv :: "fl \<Rightarrow> fl \<Rightarrow> fl" where
  "fdiv a b =
     (if a = NaN \<or> b = NaN then NaN
      else if is_inf a then (if is_inf b then NaN else inf_of (is_neg a \<noteq> is_neg b))
      else if is_inf b then zero_of (is_neg a \<noteq> is_neg b)
      else if is_zero b then (if is_zero a then NaN else inf_of (is_neg a \<noteq> is_neg b))
      else fl_round (is_neg a \<noteq> is_neg b) (\<bar>fin_val a\<bar> / \<bar>fin_val b\<bar>))"

definition fmul :: "fl \<Rightarrow> fl \<Rightarrow> fl" where
  "fmul a b =
     (if a = NaN \<or> b = NaN then NaN
      else if is_inf a \<or> is_inf b
        then (if is_zero a \<or> is_zero b then NaN else inf_of (is_neg a \<noteq> is_neg b))
      else fl_round (is_neg a \<noteq> is_neg b) (\<bar>fin_val a\<bar> * \<bar>fin_val b\<bar>))"

section \<open>The observation table\<close>

text \<open>
  One row is one observation: the \<open>location\<close> label (\<open>None\<close> for a missing one), the
  \<open>date\<close> after \<open>pd.to_datetime\<close> (a day number, \<open>None\<close> for \<open>NaT\<close>) and the numeric
  columns by name. Which numeric columns the table has is a property of the table
  (\<open>df.columns\<close>), since the notebook tests for columns at run time; the value a row
  holds under a name that is not a column is never read.
\<close>

record row =
  location :: "string option"
  date :: "int option"
  vals :: "string \<Rightarrow> fl"

record frame =
  columns :: "string list"
  rws :: "row list"

datatype exn = KeyError string | NameError string | ZeroDivisionError | Exception string

definition has_column :: "frame \<Rightarrow> string \<Rightarrow> bool" where
  "has_column df c = (c = ''location'' \<or> c = ''date'' \<or> c \<in> set (columns df))"

definition isnull :: "row \<Rightarrow> string \<Rightarrow> bool" where
  "isnull r c =
     (if c = ''location'' then location r = None
      else if c = ''date'' then date r = None
      else vals r c = NaN)"

text \<open>\<open>df[c] = f(row)\<close>: a whole-column assignment; a new label goes last.\<close>

definition assign :: "string \<Rightarrow> (row \<Rightarrow> fl) \<Rightarrow> frame \<Rightarrow> frame" where
  "assign c f df =
     df\<lparr>columns := (if c \<in> set (columns df) then columns df else columns df @ [c]),
        rws := map (\<lambda>r. r\<lparr>vals := (vals r)(c := f r)\<rparr>) (rws df)\<rparr>"

definition column_values :: "string \<Rightarrow> frame \<Rightarrow> fl list" where
  "column_values c df = map (\<lambda>r. vals r c) (rws df)"

text \<open>A row as \<open>read_csv\<close> builds it from one line: a field not given is missing.\<close>

definition mk_row :: "string \<Rightarrow> int \<Rightarrow> (string \<times> fl) list \<Rightarrow> row" where
  "mk_row l d kv =
     \<lparr>location = Some l, date = Some d,
      vals = (\<lambda>c. case map_of kv c of Some v \<Rightarrow> v | None \<Rightarrow> NaN)\<rparr>"

section \<open>Ingestion\<close>

text \<open>
  \<^verbatim>\<open>
  try:
      df = pd.read_csv(covid_data_url)
      print(f"Data loaded successfully from URL with {df.shape[0]} rows and ...")
  except Exception as e:
      print(f"Error loading data from URL: {e}")
      print("Attempting to load from local file...")
      try:
          df = pd.read_csv('owid-covid-data.csv')
          print(f"Data loaded successfully from local file with ...")
      except Exception as e2:
          print(f"Error loading data from local file: {e2}")
          print("Please ensure the 'owid-covid-data.csv' file is in your current working directory.")
  \<close>
  The two reads are the world's answers, given as arguments: the table, or the exception
  that \<open>read_csv\<close> raised. The kernel's state is the binding of \<open>df\<close> (none on a fresh
  kernel) and what has been printed. The cell has no \<open>raise\<close>, and \<open>except Exception\<close>
  catches every error a read can end with. \<open>df.shape\<close> counts \<open>location\<close> and \<open>date\<close>
  among the columns.
\<close>

datatype msg =
    LoadedURL nat nat
  | ErrorURL exn
  | Attempting
  | LoadedLocal nat nat
  | ErrorLocal exn
  | EnsureFile

record env =
  df_var :: "frame option"
  stdout :: "msg list"

definition shape :: "frame \<Rightarrow> nat \<times> nat" where
  "shape df = (length (rws df), length (columns df) + 2)"

definition load_data :: "exn + frame \<Rightarrow> exn + frame \<Rightarrow> env \<Rightarrow> exn + env" where
  "load_data remote local_file e =
     (case remote of
        Inr t \<Rightarrow>
          Inr (e\<lparr>df_var := Some t,
                 stdout := stdout e @ [LoadedURL (fst (shape t)) (snd (shape t))]\<rparr>)
      | Inl e1 \<Rightarrow>
          (case local_file of
             Inr t \<Rightarrow>
               Inr (e\<lparr>df_var := Some t,
                      stdout := stdout e @
                        [ErrorURL e1, Attempting, LoadedLocal (fst (shape t)) (snd (shape t))]\<rparr>)
           | Inl e2 \<Rightarrow>
               Inr (e\<lparr>stdout := stdout e @
                        [ErrorURL e1, Attempting, ErrorLocal e2, EnsureFile]\<rparr>)))"

text \<open>The next cell, \<open>df.head()\<close>, is the first to read \<open>df\<close>.\<close>

definition df_head :: "env \<Rightarrow> exn + env" where
  "df_head e = (case df_var e of None \<Rightarrow> Inl (NameError ''df'') | Some t \<Rightarrow> Inr e)"

text \<open>Running cells in order stops at the first one that raises.\<close>

fun run_cells :: "(env \<Rightarrow> exn + env) list \<Rightarrow> env \<Rightarrow> exn + env" where
  "run_cells [] e = Inr e"
| "run_cells (c # cs) e = (case c e of Inl x \<Rightarrow> Inl x | Inr e' \<Rightarrow> run_cells cs e')"

definition fresh_kernel :: env where
  "fresh_kernel = \<lparr>df_var = None, stdout = []\<rparr>"

section \<open>Scoping\<close>

text \<open>
  \<^verbatim>\<open>df_countries = df[df['location'].isin(countries_of_interest)].copy()\<close>
  and, in every plotting loop,
  \<^verbatim>\<open>country_data = df_clean[df_clean['location'] == country]\<close>.
  A boolean mask keeps the rows it selects, whole and in the table's order.
\<close>

definition countries_of_interest :: "string list" where
  "countries_of_interest =
     [''United States'', ''India'', ''Brazil'', ''United Kingdom'',
      ''Germany'', ''South Africa'', ''Japan'', ''Australia'', ''Kenya'']"

definition isin :: "string option \<Rightarrow> string list \<Rightarrow> bool" where
  "isin v names = (case v of None \<Rightarrow> False | Some s \<Rightarrow> s \<in> set names)"

definition df_countries_of :: "string list \<Rightarrow> frame \<Rightarrow> frame" where
  "df_countries_of names df = df\<lparr>rws := filter (\<lambda>r. isin (location r) names) (rws df)\<rparr>"

definition df_countries :: "frame \<Rightarrow> frame" where
  "df_countries df = df_countries_of countries_of_interest df"

definition country_data :: "frame \<Rightarrow> string \<Rightarrow> row list" where
  "country_data df country = filter (\<lambda>r. location r = Some country) (rws df)"

section \<open>Completeness filtering\<close>

text \<open>
  \<open>dropna(subset=...)\<close> drops a row when any of the named columns is null in it, and
  raises \<open>KeyError\<close> when a named column is not in the table (the model reports the
  first such column).
  \<^verbatim>\<open>
  complete_cases = df_countries.dropna(subset=['total_cases', 'total_deaths'])
  print(f"... {len(complete_cases)/len(df_countries)*100:.2f}%")
  df_clean = complete_cases.copy()
  \<close>
  The report line divides two Python integers, so it raises on a table with no rows.
\<close>

definition dropna :: "string list \<Rightarrow> frame \<Rightarrow> exn + frame" where
  "dropna subset_cols df =
     (case filter (\<lambda>c. \<not> has_column df c) subset_cols of
        c # cs \<Rightarrow> Inl (KeyError c)
      | [] \<Rightarrow> Inr (df\<lparr>rws := filter (\<lambda>r. list_all (\<lambda>c. \<not> isnull r c) subset_cols) (rws df)\<rparr>))"

definition complete_cases :: "frame \<Rightarrow> exn + frame" where
  "complete_cases dfc =
     (case dropna [''total_cases'', ''total_deaths''] dfc of
        Inl x \<Rightarrow> Inl x
      | Inr cc \<Rightarrow> if length (rws dfc) = 0 then Inl ZeroDivisionError else Inr cc)"



section \<open>Metric derivation\<close>

text \<open>
  \<^verbatim>\<open>
  df_clean['death_rate'] = (df_clean['total_deaths'] / df_clean['total_cases']) * 100
  if 'population' in df_clean.columns:
      df_clean['cases_per_million'] = (df_clean['total_cases'] / df_clean['population']) * 1000000
      df_clean['deaths_per_million'] = (df_clean['total_deaths'] / df_clean['population']) * 1000000
  \<close>
  Reading a column that the table does not have raises \<open>KeyError\<close>.
\<close>

definition death_rate_of :: "row \<Rightarrow> fl" where
  "death_rate_of r = fmul (fdiv (vals r ''total_deaths'') (vals r ''total_cases'')) (Fin 100)"

definition cases_per_million_of :: "row \<Rightarrow> fl" where
  "cases_per_million_of r =
     fmul (fdiv (vals r ''total_cases'') (vals r ''population'')) (Fin 1000000)"

definition deaths_per_million_of :: "row \<Rightarrow> fl" where
  "deaths_per_million_of r =
     fmul (fdiv (vals r ''total_deaths'') (vals r ''population'')) (Fin 1000000)"

definition derive_metrics :: "frame \<Rightarrow> exn + frame" where
  "derive_metrics df =
     (if ''total_deaths'' \<notin> set (columns df) then Inl (KeyError ''total_deaths'')
      else if ''total_cases'' \<notin> set (columns df) then Inl (KeyError ''total_cases'')
      else
        let d1 = assign ''death_rate'' death_rate_of df in
        if ''population'' \<in> set (columns d1)
        then Inr (assign ''deaths_per_million'' deaths_per_million_of
                   (assign ''cases_per_million'' cases_per_million_of d1))
        else Inr d1)"

text \<open>
  The base columns of a row, which are all that the three formulas read, and the effect of
  the cell on one row: \<open>death_rate\<close> is written first, and the two per-million fields
  after it when the table has a \<open>population\<close> column.
\<close>

definition base_columns :: "row \<Rightarrow> fl \<times> fl \<times> fl" where
  "base_columns r = (vals r ''total_cases'', vals r ''total_deaths'', vals r ''population'')"

definition derived_row :: "bool \<Rightarrow> row \<Rightarrow> row" where
  "derived_row has_population r =
     (let r1 = r\<lparr>vals := (vals r)(''death_rate'' := death_rate_of r)\<rparr> in
      if has_population then
        (let r2 = r1\<lparr>vals := (vals r1)(''cases_per_million'' := cases_per_million_of r1)\<rparr>
         in r2\<lparr>vals := (vals r2)(''deaths_per_million'' := deaths_per_million_of r2)\<rparr>)
      else r1)"

text \<open>The table the analysis runs on: the complete rows, then the derived columns.\<close>

definition df_clean :: "frame \<Rightarrow> exn + frame" where
  "df_clean dfc = (case complete_cases dfc of Inl x \<Rightarrow> Inl x | Inr cc \<Rightarrow> derive_metrics cc)"

section \<open>Rolling averages\<close>

text \<open>
  \<open>Series.rolling(window=7).mean()\<close>. The window at position \<open>i\<close> is the \<open>i\<close>-th value
  and up to \<open>w - 1\<close> values before it. \<open>min_periods\<close> is not given, so it is the window
  size: the result is the mean of the window's observations when there are at least \<open>w\<close>
  of them, and \<open>NaN\<close> otherwise. pandas counts neither \<open>NaN\<close> nor an infinity as an
  observation (it turns infinities into \<open>NaN\<close> before windowing).

  The mean is the binary64 quotient of the sum of the observations by their number. The
  model takes the sum exactly. pandas keeps one running sum for the series, adding the
  value that enters the window and subtracting the one that leaves, in binary64 with a
  compensation term; that running sum is exact, and is the sum of the window, when the
  finite values of the series are whole numbers of magnitude at most \<open>2 ^ 50\<close>, as counts
  of cases are. \<open>whole_counts\<close> is that condition; outside it the two can differ.
\<close>

definition window :: "nat \<Rightarrow> fl list \<Rightarrow> nat \<Rightarrow> fl list" where
  "window w xs i = (let s = Suc i - w in take (Suc i - s) (drop s xs))"

definition window_mean :: "nat \<Rightarrow> fl list \<Rightarrow> fl" where
  "window_mean minp win =
     (let obs = filter is_fin win in
      if minp \<le> length obs \<and> 0 < length obs
      then fdiv (Fin (sum_list (map fin_val obs))) (Fin (of_nat (length obs)))
      else NaN)"

definition whole_counts :: "fl list \<Rightarrow> bool" where
  "whole_counts xs =
     list_all (\<lambda>v. fin_val v = of_int \<lfloor>fin_val v\<rfloor> \<and> \<bar>fin_val v\<bar> \<le> 2 ^ 50)
       (filter is_fin xs)"

definition rolling_mean :: "nat \<Rightarrow> fl list \<Rightarrow> fl list" where
  "rolling_mean w xs = map (\<lambda>i. window_mean w (window w xs i)) [0..<length xs]"

text \<open>
  \<^verbatim>\<open>
  for country in countries_of_interest:
      country_data = df_clean[df_clean['location'] == country]
      if not country_data.empty and 'new_cases' in country_data.columns:
          country_data['new_cases_smoothed'] = country_data['new_cases'].rolling(window=7).mean()
          plt.plot(country_data['date'], country_data['new_cases_smoothed'], ...)
  \<close>
  \<open>new_cases_smoothed\<close> is the new column along the rows of \<open>country_data\<close>, and
  \<open>plotted_new_cases\<close> the points handed to \<open>plt.plot\<close>. Neither cell sorts.
\<close>

definition new_cases_smoothed :: "frame \<Rightarrow> string \<Rightarrow> fl list option" where
  "new_cases_smoothed df country =
     (let cd = country_data df country in
      if cd \<noteq> [] \<and> ''new_cases'' \<in> set (columns df)
      then Some (rolling_mean 7 (map (\<lambda>r. vals r ''new_cases'') cd))
      else None)"

definition plotted_new_cases :: "frame \<Rightarrow> string \<Rightarrow> (int option \<times> fl) list option" where
  "plotted_new_cases df country =
     map_option (zip (map date (country_data df country))) (new_cases_smoothed df country)"

definition leading_nans :: "fl list \<Rightarrow> nat" where
  "leading_nans ys = length (takeWhile (\<lambda>v. v = NaN) ys)"

section \<open>Latest row per entity\<close>

text \<open>
  \<^verbatim>\<open>latest_data = df_clean.sort_values('date').groupby('location').last().reset_index()\<close>
  \<open>sort_values\<close> orders the rows by ascending date and puts the rows without a date
  last. Its default algorithm is not a stable one; the model takes the stable order among
  equal dates.
  \<open>GroupBy.last\<close> works column by column: within a group it takes the last value of the
  column that is not null, and null when the column has none. \<open>latest_data df l\<close> is the row
  of the result for the group \<open>l\<close>, if the group has rows.
\<close>

definition sort_values_date :: "frame \<Rightarrow> frame" where
  "sort_values_date df =
     df\<lparr>rws := sort_key (\<lambda>r. case date r of Some d \<Rightarrow> d | None \<Rightarrow> 0)
                  (filter (\<lambda>r. date r \<noteq> None) (rws df))
                @ filter (\<lambda>r. date r = None) (rws df)\<rparr>"

definition last_valid :: "fl list \<Rightarrow> fl" where
  "last_valid xs = (let ys = filter (\<lambda>v. v \<noteq> NaN) xs in if ys = [] then NaN else last ys)"

definition last_date :: "int option list \<Rightarrow> int option" where
  "last_date ds = (let ys = filter (\<lambda>d. d \<noteq> None) ds in if ys = [] then None else last ys)"

definition groupby_last :: "frame \<Rightarrow> string \<Rightarrow> row option" where
  "groupby_last df l =
     (let g = filter (\<lambda>r. location r = Some l) (rws df) in
      if g = [] then None
      else Some \<lparr>location = Some l, date = last_date (map date g),
                 vals = (\<lambda>c. last_valid (map (\<lambda>r. vals r c) g))\<rparr>)"

definition latest_data :: "frame \<Rightarrow> string \<Rightarrow> row option" where
  "latest_data df l = groupby_last (sort_values_date df) l"

section \<open>The cells in sequence\<close>

text \<open>
  The plotting and snapshot cells run on \<open>df_clean\<close>; these are the same cells started
  from \<open>df_countries\<close>, so that the filter and the derivation are part of the run.
\<close>

definition smoothed_run :: "frame \<Rightarrow> string \<Rightarrow> exn + fl list option" where
  "smoothed_run dfc country =
     (case df_clean dfc of Inl x \<Rightarrow> Inl x | Inr cl \<Rightarrow> Inr (new_cases_smoothed cl country))"

definition date_and :: "string \<Rightarrow> row \<Rightarrow> int option \<times> fl" where
  "date_and c r = (date r, vals r c)"

definition latest_run :: "frame \<Rightarrow> string \<Rightarrow> exn + row option" where
  "latest_run dfc l =
     (case df_clean dfc of Inl x \<Rightarrow> Inl x | Inr cl \<Rightarrow> Inr (latest_data cl l))"

definition plotted_run :: "frame \<Rightarrow> string \<Rightarrow> exn + (int option \<times> fl) list option" where
  "plotted_run dfc country =
     (case df_clean dfc of Inl x \<Rightarrow> Inl x | Inr cl \<Rightarrow> Inr (plotted_new_cases cl country))"

section \<open>Example tables\<close>

text \<open>
  \<open>series_frame\<close> is one entity's rows as they stand in the file, with the given dates
  and \<open>new_cases\<close> values and both totals present in every row. \<open>rounding_frame\<close> has
  a row with an exact rate, a row whose rate is rounded twice, a row whose quotient
  overflows, a row with a negative zero for \<open>total_cases\<close>, and a row with both totals
  zero. \<open>carried_frame\<close> has no \<open>population\<close> column and already carries a
  \<open>cases_per_million\<close> column; \<open>stale_pop_frame\<close> is \<open>pop_frame\<close> with a
  \<open>death_rate\<close> column of other values; \<open>no_deaths_frame\<close> has no \<open>total_deaths\<close>
  column.
\<close>

definition zero_cases_frame :: frame where
  "zero_cases_frame =
     \<lparr>columns = [''total_cases'', ''total_deaths''],
      rws = [mk_row ''Kenya'' 1 [(''total_cases'', Fin 0), (''total_deaths'', Fin 5)]]\<rparr>"

definition mixed_frame :: frame where
  "mixed_frame =
     \<lparr>columns = [''total_cases'', ''total_deaths''],
      rws = [mk_row ''Kenya'' 1 [(''total_cases'', Fin 10), (''total_deaths'', Fin 1)],
             mk_row ''Kenya'' 2 [(''total_cases'', Fin 0), (''total_deaths'', Fin 0)],
             mk_row ''Kenya'' 3 [(''total_cases'', Fin 0), (''total_deaths'', Fin 5)]]\<rparr>"

definition series_frame :: "string \<Rightarrow> (int \<times> fl) list \<Rightarrow> frame" where
  "series_frame l pts =
     \<lparr>columns = [''total_cases'', ''new_cases'', ''total_deaths''],
      rws = map (\<lambda>(d, v). mk_row l d
              [(''total_cases'', Fin 100), (''new_cases'', v), (''total_deaths'', Fin 1)]) pts\<rparr>"

definition late_null_frame :: frame where
  "late_null_frame = series_frame ''Kenya''
     [(1, NaN), (2, Fin 1), (3, Fin 1), (4, Fin 1), (5, Fin 1), (6, Fin 1), (7, Fin 1), (8, Fin 1)]"

definition gap_frame :: frame where
  "gap_frame = series_frame ''Kenya''
     [(1, Fin 1), (2, Fin 1), (3, Fin 1), (4, Fin 1), (5, Fin 1), (6, Fin 1), (7, Fin 1),
      (8, NaN), (9, Fin 1)]"

definition unsorted_frame :: frame where
  "unsorted_frame = series_frame ''Kenya''
     [(8, Fin 80), (1, Fin 1), (2, Fin 2), (3, Fin 3), (4, Fin 4), (5, Fin 5), (6, Fin 6), (7, Fin 7)]"

definition stale_frame :: frame where
  "stale_frame = series_frame ''Kenya'' [(1, Fin 5), (2, NaN)]"

definition incomplete_row :: row where
  "incomplete_row = mk_row ''Kenya'' 1 [(''total_cases'', Fin 5), (''total_deaths'', NaN)]"

definition complete_row :: row where
  "complete_row = mk_row ''Kenya'' 2 [(''total_cases'', Fin 5), (''total_deaths'', Fin 1)]"


definition france_row :: row where
  "france_row = mk_row ''France'' 1 [(''total_cases'', Fin 7), (''total_deaths'', Fin 1)]"

definition two_country_frame :: frame where
  "two_country_frame =
     \<lparr>columns = [''total_cases'', ''total_deaths''],
      rws = [incomplete_row, france_row, complete_row]\<rparr>"

definition pop_frame :: frame where
  "pop_frame =
     \<lparr>columns = [''total_cases'', ''total_deaths'', ''population''],
      rws = [mk_row ''Kenya'' 1
               [(''total_cases'', Fin 512), (''total_deaths'', Fin 4), (''population'', Fin 1048576)],
             mk_row ''Kenya'' 2
               [(''total_cases'', Fin 1024), (''total_deaths'', Fin 8), (''population'', Fin 2097152)]]\<rparr>"

definition carried_frame :: frame where
  "carried_frame =
     \<lparr>columns = [''total_cases'', ''total_deaths'', ''cases_per_million''],
      rws = [mk_row ''Kenya'' 1
               [(''total_cases'', Fin 4), (''total_deaths'', Fin 1), (''cases_per_million'', Fin 42)]]\<rparr>"

definition stale_pop_frame :: frame where
  "stale_pop_frame =
     \<lparr>columns = [''total_cases'', ''total_deaths'', ''population'', ''death_rate''],
      rws = [mk_row ''Kenya'' 1
               [(''total_cases'', Fin 512), (''total_deaths'', Fin 4), (''population'', Fin 1048576),
                (''death_rate'', Fin 99)],
             mk_row ''Kenya'' 2
               [(''total_cases'', Fin 1024), (''total_deaths'', Fin 8), (''population'', Fin 2097152),
                (''death_rate'', Fin 99)]]\<rparr>"


definition rounding_frame :: frame where
  "rounding_frame =
     \<lparr>columns = [''total_cases'', ''total_deaths''],
      rws = [mk_row ''Kenya'' 1 [(''total_cases'', Fin 4), (''total_deaths'', Fin 1)],
             mk_row ''Kenya'' 2 [(''total_cases'', Fin 200), (''total_deaths'', Fin 7)],
             mk_row ''Kenya'' 3 [(''total_cases'', Fin (1 / 2)), (''total_deaths'', Fin (pow2 1023))],
             mk_row ''Kenya'' 4 [(''total_cases'', NZero), (''total_deaths'', Fin 5)],
             mk_row ''Kenya'' 5 [(''total_cases'', Fin 0), (''total_deaths'', Fin 0)]]\<rparr>"

section \<open>Binary64 rounding\<close>

text \<open>
  \<open>ilog2\<close> is the exponent, rounding moves a value in the normal range by at most the
  fraction \<open>2 ^ - 53\<close> of it, and a value with at most 53 significant bits is not moved.
\<close>

lemma pow2_pos: "0 < pow2 k"
  by (simp add: pow2_def)

lemma pow2_add: "pow2 (a + b) = pow2 a * pow2 b"
  by (simp add: pow2_def power_int_add)

lemma pow2_strict_mono: "a < b \<Longrightarrow> pow2 a < pow2 b"
  by (simp add: pow2_def power_int_strict_increasing)

lemma pow2_mono: "a \<le> b \<Longrightarrow> pow2 a \<le> pow2 b"
  by (simp add: pow2_def power_int_increasing)

lemma pow2_nat: "0 \<le> k \<Longrightarrow> pow2 k = 2 ^ nat k"
  by (simp add: pow2_def power_int_def)

lemma pow2_unique:
  assumes "pow2 e \<le> q" "q < pow2 (e + 1)" "pow2 e' \<le> q" "q < pow2 (e' + 1)"
  shows "e = e'"
proof (rule ccontr)
  assume "e \<noteq> e'"
  then consider "e + 1 \<le> e'" | "e' + 1 \<le> e" by linarith
  then show False
  proof cases
    case 1
    then have "pow2 (e + 1) \<le> pow2 e'" by (rule pow2_mono)
    with assms show False by linarith
  next
    case 2
    then have "pow2 (e' + 1) \<le> pow2 e" by (rule pow2_mono)
    with assms show False by linarith
  qed
qed

lemma ilog2_bounds:
  assumes "0 < q"
  shows "pow2 (ilog2 q) \<le> q \<and> q < pow2 (ilog2 q + 1)"
proof -
  obtain a b where ab: "quotient_of q = (a, b)" by (cases "quotient_of q")
  then have b: "0 < b" by (rule quotient_of_denom_pos)
  from ab have q: "q = of_int a / of_int b" by (rule quotient_of_div)
  with assms b have a: "0 < a" by (simp add: zero_less_divide_iff)
  define la where "la = bitlen a"
  define lb where "lb = bitlen b"
  from a have la1: "1 \<le> la" unfolding la_def by (simp add: bitlen_alt_def)
  from b have lb1: "1 \<le> lb" unfolding lb_def by (simp add: bitlen_alt_def)
  from bitlen_bounds[OF a] have a_lo: "(2::int) ^ nat (la - 1) \<le> a" and a_hi: "a < 2 ^ nat la"
    by (simp_all add: la_def)
  from bitlen_bounds[OF b] have b_lo: "(2::int) ^ nat (lb - 1) \<le> b" and b_hi: "b < 2 ^ nat lb"
    by (simp_all add: lb_def)
  have ra_lo: "pow2 (la - 1) \<le> of_int a"
  proof -
    from a_lo have "(of_int ((2::int) ^ nat (la - 1)) :: rat) \<le> of_int a" by (simp only: of_int_le_iff)
    with la1 show ?thesis by (simp add: pow2_nat)
  qed
  have ra_hi: "of_int a < pow2 la"
  proof -
    from a_hi have "(of_int a :: rat) < of_int ((2::int) ^ nat la)" by (simp only: of_int_less_iff)
    with la1 show ?thesis by (simp add: pow2_nat)
  qed
  have rb_lo: "pow2 (lb - 1) \<le> of_int b"
  proof -
    from b_lo have "(of_int ((2::int) ^ nat (lb - 1)) :: rat) \<le> of_int b" by (simp only: of_int_le_iff)
    with lb1 show ?thesis by (simp add: pow2_nat)
  qed
  have rb_hi: "of_int b < pow2 lb"
  proof -
    from b_hi have "(of_int b :: rat) < of_int ((2::int) ^ nat lb)" by (simp only: of_int_less_iff)
    with lb1 show ?thesis by (simp add: pow2_nat)
  qed
  have bpos: "(0::rat) < of_int b" using b by simp
  define k where "k = la - lb"
  have lo: "pow2 (k - 1) < q"
  proof -
    have "pow2 (k - 1) * of_int b < pow2 (k - 1) * pow2 lb"
      using rb_hi pow2_pos by (simp add: mult_strict_left_mono)
    also have "\<dots> = pow2 (la - 1)" by (simp add: k_def pow2_add[symmetric])
    also have "\<dots> \<le> of_int a" by (rule ra_lo)
    finally show ?thesis using bpos by (simp add: q pos_less_divide_eq)
  qed
  have hi: "q < pow2 (k + 1)"
  proof -
    have "of_int a < pow2 la" by (rule ra_hi)
    also have "\<dots> = pow2 (k + 1) * pow2 (lb - 1)" by (simp add: k_def pow2_add[symmetric])
    also have "\<dots> \<le> pow2 (k + 1) * of_int b"
      using rb_lo pow2_pos by (simp add: mult_left_mono less_imp_le)
    finally show ?thesis using bpos by (simp add: q pos_divide_less_eq)
  qed
  have il: "ilog2 q = (if pow2 k \<le> q then k else k - 1)"
    by (simp add: ilog2_def ab Let_def k_def la_def lb_def)
  show ?thesis
  proof (cases "pow2 k \<le> q")
    case True
    with il hi show ?thesis by simp
  next
    case False
    with il lo show ?thesis by simp
  qed
qed

lemma ilog2_eqI:
  assumes "pow2 e \<le> q" and "q < pow2 (e + 1)"
  shows "ilog2 q = e"
proof -
  from assms(1) pow2_pos[of e] have "0 < q" by linarith
  from ilog2_bounds[OF this] assms show ?thesis
    by (intro pow2_unique[of "ilog2 q" q e]) simp_all
qed

lemma round_half_even_near: "\<bar>of_int (round_half_even x) - x\<bar> \<le> 1 / 2"
proof -
  have "of_int \<lfloor>x\<rfloor> \<le> x" and "x < of_int \<lfloor>x\<rfloor> + 1" by linarith+
  then show ?thesis
    by (auto simp: round_half_even_def Let_def)
qed

lemma round_half_even_of_int: "round_half_even (of_int n) = n"
  by (simp add: round_half_even_def)

lemma round_half_even_nonneg: "0 \<le> x \<Longrightarrow> 0 \<le> round_half_even x"
  by (auto simp: round_half_even_def Let_def)

lemma round64_eq:
  assumes "pow2 e \<le> q" and "q < pow2 (e + 1)"
  shows "round64 q =
     (let ulp = pow2 (max e (- 1022) - 52);
          m = of_int (round_half_even (q / ulp)) * ulp
      in if pow2 1024 \<le> m then None else Some m)"
  by (simp add: round64_def ilog2_eqI[OF assms])

lemma round64_exact:
  assumes "pow2 e \<le> q" and "q < pow2 (e + 1)" and "- 1022 \<le> e" and "e \<le> 1023"
    and "q / pow2 (e - 52) = of_int n"
  shows "round64 q = Some q"
proof -
  from assms(3) have mx: "max e (- 1022) = e" by simp
  have ne: "pow2 (e - 52) \<noteq> 0" using pow2_pos[of "e - 52"] by simp
  from assms(5) ne have m: "of_int n * pow2 (e - 52) = q"
    by (simp add: field_simps)
  from assms(4) have "pow2 (e + 1) \<le> pow2 1024" by (intro pow2_mono) simp
  with assms(2) have "\<not> pow2 1024 \<le> q" by linarith
  then show ?thesis
    by (simp add: round64_eq[OF assms(1,2)] mx assms(5) round_half_even_of_int m Let_def)
qed

lemma round64_nonneg:
  assumes "0 \<le> q" and "round64 q = Some r"
  shows "0 \<le> r"
proof -
  let ?ulp = "pow2 (max (ilog2 q) (- 1022) - 52)"
  have "0 < ?ulp" by (rule pow2_pos)
  with assms(1) have "0 \<le> q / ?ulp" by simp
  then have "0 \<le> round_half_even (q / ?ulp)" by (rule round_half_even_nonneg)
  with \<open>0 < ?ulp\<close> have "0 \<le> of_int (round_half_even (q / ?ulp)) * ?ulp" by simp
  with assms(2) show ?thesis
    by (auto simp: round64_def Let_def split: if_splits)
qed

lemma round64_error:
  assumes "pow2 (- 1022) \<le> q" and "round64 q = Some r"
  shows "\<bar>r - q\<bar> \<le> q / 2 ^ 53"
proof -
  from assms(1) pow2_pos[of "- 1022"] have qpos: "0 < q" by linarith
  define e where "e = ilog2 q"
  from ilog2_bounds[OF qpos] have lo: "pow2 e \<le> q" and hi: "q < pow2 (e + 1)"
    by (simp_all add: e_def)
  have "- 1022 < e + 1"
  proof (rule ccontr)
    assume "\<not> - 1022 < e + 1"
    then have "pow2 (e + 1) \<le> pow2 (- 1022)" by (intro pow2_mono) simp
    with hi assms(1) show False by linarith
  qed
  then have mx: "max e (- 1022) = e" by simp
  define ulp where "ulp = pow2 (e - 52)"
  have ulp_pos: "0 < ulp" unfolding ulp_def by (rule pow2_pos)
  define n where "n = round_half_even (q / ulp)"
  from assms(2) have r: "r = of_int n * ulp"
    by (auto simp: round64_def Let_def e_def[symmetric] mx ulp_def n_def split: if_splits)
  have "\<bar>of_int n - q / ulp\<bar> \<le> 1 / 2" unfolding n_def by (rule round_half_even_near)
  then have "\<bar>of_int n - q / ulp\<bar> * ulp \<le> 1 / 2 * ulp"
    using ulp_pos by (intro mult_right_mono) simp_all
  moreover have "\<bar>of_int n - q / ulp\<bar> * ulp = \<bar>r - q\<bar>"
  proof -
    have "\<bar>of_int n - q / ulp\<bar> * ulp = \<bar>(of_int n - q / ulp) * ulp\<bar>"
      using ulp_pos by (simp add: abs_mult)
    also have "(of_int n - q / ulp) * ulp = r - q"
      using ulp_pos by (simp add: r field_simps)
    finally show ?thesis .
  qed
  ultimately have "\<bar>r - q\<bar> \<le> ulp / 2" by simp
  also have "ulp / 2 = pow2 e / 2 ^ 53"
  proof -
    have "pow2 e = pow2 (e - 52) * pow2 52" by (simp add: pow2_add[symmetric])
    also have "pow2 52 = 2 ^ 52" by (simp add: pow2_def)
    finally show ?thesis by (simp add: ulp_def)
  qed
  also have "\<dots> \<le> q / 2 ^ 53" using lo by (simp add: divide_right_mono)
  finally show ?thesis .
qed

lemma floor_numeral_div:
  "\<lfloor>(numeral a :: rat) / numeral b\<rfloor> = numeral a div numeral b"
  using floor_divide_of_int_eq[of "numeral a" "numeral b", where ?'a = rat] by simp

lemmas r_ev = pow2_def round_half_even_def Let_def floor_numeral_div

lemmas fl_ev = fdiv_def fmul_def fl_round_def inf_of_def zero_of_def

lemma fl_round_not_NaN: "fl_round s m \<noteq> NaN"
  by (simp add: fl_round_def inf_of_def zero_of_def split: option.splits)

lemma fl_round_None: "round64 m = None \<Longrightarrow> fl_round s m = inf_of s"
  by (simp add: fl_round_def)

lemma fl_round_Some:
  assumes "round64 m = Some r"
  shows "is_fin (fl_round s m)" and "fin_val (fl_round s m) = (if s then - r else r)"
    and "\<not> is_inf (fl_round s m)"
  using assms by (simp_all add: fl_round_def zero_of_def)

lemma fl_round_pos:
  assumes "round64 m = Some r" and "0 < r"
  shows "fl_round s m = Fin (if s then - r else r)" and "is_neg (fl_round s m) = s"
    and "\<not> is_zero (fl_round s m)"
  using assms by (simp_all add: fl_round_def)

lemma is_fin_cases: "is_fin a \<longleftrightarrow> a \<noteq> NaN \<and> \<not> is_inf a"
  by (cases a) simp_all

lemma is_zero_fin_val: "is_fin a \<Longrightarrow> is_zero a \<longleftrightarrow> fin_val a = 0"
  by (cases a) simp_all

lemma is_neg_fin_val: "is_fin a \<Longrightarrow> fin_val a \<noteq> 0 \<Longrightarrow> is_neg a \<longleftrightarrow> fin_val a < 0"
  by (cases a) simp_all

lemma fdiv_NaN_iff:
  "fdiv a b = NaN \<longleftrightarrow>
     a = NaN \<or> b = NaN \<or> (is_inf a \<and> is_inf b) \<or> (is_zero a \<and> is_zero b)"
  by (cases a; cases b) (simp_all add: fdiv_def fl_round_not_NaN inf_of_def zero_of_def)

lemma fdiv_by_zero:
  "is_zero b \<Longrightarrow> a \<noteq> NaN \<Longrightarrow> \<not> is_zero a \<Longrightarrow> is_inf (fdiv a b)"
  by (cases a; cases b) (simp_all add: fdiv_def inf_of_def)

lemma fmul_const_NaN_iff: "c \<noteq> 0 \<Longrightarrow> fmul a (Fin c) = NaN \<longleftrightarrow> a = NaN"
  by (cases a) (simp_all add: fmul_def fl_round_not_NaN inf_of_def)

lemma fmul_const_inf: "c \<noteq> 0 \<Longrightarrow> is_inf a \<Longrightarrow> is_inf (fmul a (Fin c))"
  by (cases a) (simp_all add: fmul_def inf_of_def)

lemma death_rate_NaN_iff:
  "fmul (fdiv td tc) (Fin 100) = NaN \<longleftrightarrow>
     td = NaN \<or> tc = NaN \<or> (is_inf td \<and> is_inf tc) \<or> (is_zero td \<and> is_zero tc)"
  by (simp add: fmul_const_NaN_iff fdiv_NaN_iff)

lemma death_rate_zero_cases:
  "is_zero tc \<Longrightarrow> td \<noteq> NaN \<Longrightarrow> \<not> is_zero td \<Longrightarrow> is_inf (fmul (fdiv td tc) (Fin 100))"
  by (simp add: fmul_const_inf fdiv_by_zero)

lemma death_rate_tolerance:
  assumes fin: "is_fin td" "is_fin tc"
    and norm: "pow2 (- 1022) \<le> \<bar>fin_val td\<bar> / \<bar>fin_val tc\<bar>"
    and res: "is_fin (fmul (fdiv td tc) (Fin 100))"
  shows "\<bar>fin_val (fmul (fdiv td tc) (Fin 100)) - fin_val td / fin_val tc * 100\<bar>
           \<le> \<bar>fin_val td / fin_val tc * 100\<bar> / 2 ^ 51"
proof -
  define d where "d = fin_val td"
  define c where "c = fin_val tc"
  define q1 where "q1 = \<bar>d\<bar> / \<bar>c\<bar>"
  define s where "s = (is_neg td \<noteq> is_neg tc)"
  have q1pos: "0 < q1" and q1n: "pow2 (- 1022) \<le> q1"
    using norm pow2_pos[of "- 1022"] by (simp_all add: q1_def d_def c_def)
  then have c0: "c \<noteq> 0" and d0: "d \<noteq> 0" by (auto simp: q1_def)
  from fin c0 d0 have nz: "\<not> is_zero tc" "\<not> is_zero td"
    by (simp_all add: is_zero_fin_val c_def d_def)
  from fin have nn: "td \<noteq> NaN" "tc \<noteq> NaN" "\<not> is_inf td" "\<not> is_inf tc"
    by (simp_all add: is_fin_cases)
  have sgn: "s \<longleftrightarrow> (d < 0) \<noteq> (c < 0)"
    using fin c0 d0 by (simp add: s_def is_neg_fin_val c_def d_def)
  have quot: "d / c = (if s then - q1 else q1)"
    using c0 d0 by (auto simp: sgn q1_def abs_if)
  have x: "fdiv td tc = fl_round s q1"
    using nn nz by (simp add: fdiv_def s_def q1_def d_def c_def)
  obtain r1 where r1: "round64 q1 = Some r1"
  proof (cases "round64 q1")
    case None
    then have "fdiv td tc = inf_of s" by (simp add: x fl_round_None)
    then have "is_inf (fmul (fdiv td tc) (Fin 100))"
      by (intro fmul_const_inf) (simp_all add: inf_of_def)
    with res show ?thesis by (simp add: is_fin_cases)
  next
    case (Some r)
    then show ?thesis by (rule that)
  qed
  from round64_error[OF q1n r1] have e1: "\<bar>r1 - q1\<bar> \<le> q1 / 2 ^ 53" .
  moreover have "q1 / 2 ^ 53 \<le> q1 / 2"
    using q1pos by (intro divide_left_mono) simp_all
  ultimately have r1lo: "q1 / 2 \<le> r1" and r1hi: "r1 \<le> 2 * q1"
    using q1pos by linarith+
  with q1pos have r1pos: "0 < r1" by linarith
  have xv: "fdiv td tc = Fin (if s then - r1 else r1)" and xs: "is_neg (fdiv td tc) = s"
    using fl_round_pos[OF r1 r1pos, of s] by (simp_all add: x)
  have y: "fmul (fdiv td tc) (Fin 100) = fl_round s (r1 * 100)"
    using r1pos by (simp add: fmul_def xv)
  obtain r2 where r2: "round64 (r1 * 100) = Some r2"
  proof (cases "round64 (r1 * 100)")
    case None
    then have "fmul (fdiv td tc) (Fin 100) = inf_of s" by (simp add: y fl_round_None)
    with res show ?thesis by (simp add: inf_of_def split: if_splits)
  next
    case (Some r)
    then show ?thesis by (rule that)
  qed
  have "pow2 (- 1022) \<le> r1 * 100" using q1n r1lo q1pos by linarith
  from round64_error[OF this r2] have e2: "\<bar>r2 - r1 * 100\<bar> \<le> r1 * 100 / 2 ^ 53" .
  have val: "fin_val (fmul (fdiv td tc) (Fin 100)) = (if s then - r2 else r2)"
    by (simp add: y fl_round_Some(2)[OF r2])
  have lhs: "\<bar>fin_val (fmul (fdiv td tc) (Fin 100)) - d / c * 100\<bar> = \<bar>r2 - q1 * 100\<bar>"
    by (simp add: val quot abs_minus_commute)
  have rhs: "\<bar>d / c * 100\<bar> = q1 * 100"
    using q1pos by (simp add: quot)
  have t1: "\<bar>r2 - q1 * 100\<bar> = \<bar>(r2 - r1 * 100) + 100 * (r1 - q1)\<bar>"
    by (simp add: algebra_simps)
  have t2: "\<bar>(r2 - r1 * 100) + 100 * (r1 - q1)\<bar> \<le> \<bar>r2 - r1 * 100\<bar> + \<bar>100 * (r1 - q1)\<bar>"
    by (rule abs_triangle_ineq)
  have t3: "\<bar>100 * (r1 - q1)\<bar> = 100 * \<bar>r1 - q1\<bar>"
    by (simp only: abs_mult abs_numeral)
  from e1 have t4: "100 * \<bar>r1 - q1\<bar> \<le> 100 * (q1 / 2 ^ 53)"
    by (intro mult_left_mono) simp_all
  have t5: "r1 * 100 / 2 ^ 53 + 100 * (q1 / 2 ^ 53) \<le> q1 * 100 / 2 ^ 51"
    using r1hi q1pos by (simp add: field_simps)
  from t1 t2 t3 t4 t5 e2 have "\<bar>r2 - q1 * 100\<bar> \<le> q1 * 100 / 2 ^ 51" by linarith
  then have "\<bar>fin_val (fmul (fdiv td tc) (Fin 100)) - d / c * 100\<bar>
      \<le> \<bar>d / c * 100\<bar> / 2 ^ 51"
    by (simp only: lhs rhs)
  then show ?thesis by (simp only: d_def c_def)
qed

text \<open>The cells of the example tables.\<close>

lemma r_1: "round64 1 = Some 1"
  by (rule round64_exact[of 0 _ "2 ^ 52"]) (simp_all add: pow2_def)

lemma r_4: "round64 4 = Some 4"
  by (rule round64_exact[of 2 _ "2 ^ 52"]) (simp_all add: pow2_def)

lemma r_quarter: "round64 (1 / 4) = Some (1 / 4)"
  by (rule round64_exact[of "- 2" _ "2 ^ 52"]) (simp_all add: pow2_def)

lemma r_25: "round64 25 = Some 25"
  by (rule round64_exact[of 4 _ "25 * 2 ^ 48"]) (simp_all add: pow2_def)

lemma r_7_200: "round64 (7 / 200) = Some (1261007895663739 / 36028797018963968)"
  by (subst round64_eq[of "- 5"]) (simp_all add: r_ev)

lemma r_7_200_100:
  "round64 (1261007895663739 / 36028797018963968 * 100)
     = Some (7881299347898369 / 2251799813685248)"
  by (subst round64_eq[of 1]) (simp_all add: r_ev)

lemma r_101_7: "round64 (101 / 7) = Some (8122563613650359 / 562949953421312)"
  by (subst round64_eq[of 3]) (simp_all add: r_ev)

lemma r_107_7: "round64 (107 / 7) = Some (8605092145154341 / 562949953421312)"
  by (subst round64_eq[of 3]) (simp_all add: r_ev)

lemma r_128: "round64 (1 / 128) = Some (1 / 128)"
  by (rule round64_exact[of "- 7" _ "2 ^ 52"]) (simp_all add: pow2_def)

lemma r_25_32: "round64 (25 / 32) = Some (25 / 32)"
  by (rule round64_exact[of "- 1" _ "25 * 2 ^ 48"]) (simp_all add: pow2_def)

lemma r_2048: "round64 (1 / 2048) = Some (1 / 2048)"
  by (rule round64_exact[of "- 11" _ "2 ^ 52"]) (simp_all add: pow2_def)

lemma r_15625_32: "round64 (15625 / 32) = Some (15625 / 32)"
  by (rule round64_exact[of 8 _ "15625 * 2 ^ 39"]) (simp_all add: pow2_def)

lemma r_262144: "round64 (1 / 262144) = Some (1 / 262144)"
  by (rule round64_exact[of "- 18" _ "2 ^ 52"]) (simp_all add: pow2_def)

lemma r_15625_4096: "round64 (15625 / 4096) = Some (15625 / 4096)"
  by (rule round64_exact[of 1 _ "15625 * 2 ^ 39"]) (simp_all add: pow2_def)

lemma overflow_cell: "fmul (fdiv (Fin (pow2 1023)) (Fin (1 / 2))) (Fin 100) = PInf"
proof -
  have "round64 (pow2 1023 / (1 / 2)) = None"
    by (subst round64_eq[of 1024]) (simp_all add: r_ev)
  moreover have "0 < pow2 1023" by (rule pow2_pos)
  ultimately show ?thesis by (simp add: fl_ev)
qed

lemma rounding_frame_cells:
  "fmul (fdiv (Fin 1) (Fin 4)) (Fin 100) = Fin 25"
  "fmul (fdiv (Fin 7) (Fin 200)) (Fin 100) = Fin (7881299347898369 / 2251799813685248)"
  "fmul (fdiv (Fin 5) NZero) (Fin 100) = NInf"
  "fmul (fdiv (Fin 0) (Fin 0)) (Fin 100) = NaN"
  using r_7_200_100 by (simp_all add: fl_ev r_quarter r_25 r_7_200)

lemma pop_frame_cells:
  "fmul (fdiv (Fin 4) (Fin 512)) (Fin 100) = Fin (25 / 32)"
  "fmul (fdiv (Fin 8) (Fin 1024)) (Fin 100) = Fin (25 / 32)"
  "fmul (fdiv (Fin 512) (Fin 1048576)) (Fin 1000000) = Fin (15625 / 32)"
  "fmul (fdiv (Fin 1024) (Fin 2097152)) (Fin 1000000) = Fin (15625 / 32)"
  "fmul (fdiv (Fin 4) (Fin 1048576)) (Fin 1000000) = Fin (15625 / 4096)"
  "fmul (fdiv (Fin 8) (Fin 2097152)) (Fin 1000000) = Fin (15625 / 4096)"
  by (simp_all add: fl_ev r_128 r_25_32 r_2048 r_15625_32 r_262144 r_15625_4096)

lemma mean_cells:
  "fdiv (Fin 7) (Fin 7) = Fin 1"
  "fdiv (Fin 28) (Fin 7) = Fin 4"
  "fdiv (Fin 101) (Fin 7) = Fin (8122563613650359 / 562949953421312)"
  "fdiv (Fin 107) (Fin 7) = Fin (8605092145154341 / 562949953421312)"
  by (simp_all add: fl_ev r_1 r_4 r_101_7 r_107_7)

section \<open>Evaluation and helper lemmas\<close>

lemmas ev = df_clean_def complete_cases_def dropna_def has_column_def isnull_def
  series_frame_def mk_row_def derive_metrics_def assign_def new_cases_smoothed_def
  country_data_def rolling_mean_def window_def window_mean_def leading_nans_def Let_def upt_rec
  column_values_def death_rate_of_def smoothed_run_def

lemmas ev2 = derive_metrics_def assign_def column_values_def mk_row_def death_rate_of_def
  Let_def

lemma assign_idem:
  assumes "c \<in> set (columns df)" and "\<forall>r\<in>set (rws df). f r = vals r c"
  shows "assign c f df = df"
proof -
  have "map (\<lambda>r. r\<lparr>vals := (vals r)(c := f r)\<rparr>) (rws df) = rws df"
    using assms(2) by (intro map_idI) simp
  with assms(1) show ?thesis by (simp add: assign_def)
qed

lemma assign_columns: "set (columns (assign c f df)) = insert c (set (columns df))"
  by (auto simp: assign_def)

lemma assign_rws: "rws (assign c f df) = map (\<lambda>r. r\<lparr>vals := (vals r)(c := f r)\<rparr>) (rws df)"
  by (simp add: assign_def)

lemma derive_metrics_no_population:
  assumes "''total_deaths'' \<in> set (columns df)" and "''total_cases'' \<in> set (columns df)"
    and "''population'' \<notin> set (columns df)"
  shows "derive_metrics df = Inr (assign ''death_rate'' death_rate_of df)"
  using assms by (simp add: derive_metrics_def Let_def assign_columns)

lemma derive_metrics_population:
  assumes "''total_deaths'' \<in> set (columns df)" and "''total_cases'' \<in> set (columns df)"
    and "''population'' \<in> set (columns df)"
  shows "derive_metrics df =
     Inr (assign ''deaths_per_million'' deaths_per_million_of
           (assign ''cases_per_million'' cases_per_million_of
             (assign ''death_rate'' death_rate_of df)))"
  using assms by (simp add: derive_metrics_def Let_def assign_columns)

lemma derive_metrics_KeyError:
  "''total_deaths'' \<notin> set (columns df) \<or> ''total_cases'' \<notin> set (columns df)
   \<Longrightarrow> isl (derive_metrics df)"
  by (auto simp: derive_metrics_def)

lemma derive_metrics_total:
  assumes "''total_deaths'' \<in> set (columns df)" and "''total_cases'' \<in> set (columns df)"
  shows "\<exists>out. derive_metrics df = Inr out"
  using assms
  by (cases "''population'' \<in> set (columns df)")
     (simp_all add: derive_metrics_no_population derive_metrics_population)

lemma derive_metrics_rows:
  assumes "derive_metrics cc = Inr cl"
  shows "\<exists>upd. rws cl = map upd (rws cc)
           \<and> (\<forall>r. location (upd r) = location r
                  \<and> vals (upd r) ''new_cases'' = vals r ''new_cases'')"
proof -
  from assms have td: "''total_deaths'' \<in> set (columns cc)"
    and tc: "''total_cases'' \<in> set (columns cc)"
    using derive_metrics_KeyError[of cc] by auto
  show ?thesis
  proof (cases "''population'' \<in> set (columns cc)")
    case False
    with assms td tc have "cl = assign ''death_rate'' death_rate_of cc"
      by (simp add: derive_metrics_no_population)
    then have "rws cl = map (\<lambda>r. r\<lparr>vals := (vals r)(''death_rate'' := death_rate_of r)\<rparr>) (rws cc)"
      by (simp add: assign_rws)
    then show ?thesis
      by (intro exI[of _ "\<lambda>r. r\<lparr>vals := (vals r)(''death_rate'' := death_rate_of r)\<rparr>"]) simp
  next
    case True
    let ?u1 = "\<lambda>r. r\<lparr>vals := (vals r)(''death_rate'' := death_rate_of r)\<rparr>"
    let ?u2 = "\<lambda>r. r\<lparr>vals := (vals r)(''cases_per_million'' := cases_per_million_of r)\<rparr>"
    let ?u3 = "\<lambda>r. r\<lparr>vals := (vals r)(''deaths_per_million'' := deaths_per_million_of r)\<rparr>"
    from assms td tc True have "cl = assign ''deaths_per_million'' deaths_per_million_of
           (assign ''cases_per_million'' cases_per_million_of
             (assign ''death_rate'' death_rate_of cc))"
      by (simp add: derive_metrics_population)
    then have "rws cl = map (\<lambda>r. ?u3 (?u2 (?u1 r))) (rws cc)"
      by (simp add: assign_rws o_def)
    then show ?thesis
      by (intro exI[of _ "\<lambda>r. ?u3 (?u2 (?u1 r))"]) simp
  qed
qed

lemma derived_row_simps:
  "location (derived_row p r) = location r"
  "date (derived_row p r) = date r"
  "vals (derived_row p r) c =
     (if p \<and> c = ''deaths_per_million'' then deaths_per_million_of r
      else if p \<and> c = ''cases_per_million'' then cases_per_million_of r
      else if c = ''death_rate'' then death_rate_of r
      else vals r c)"
  by (simp_all add: derived_row_def Let_def cases_per_million_of_def deaths_per_million_of_def)

lemma derive_metrics_rws:
  assumes "derive_metrics df = Inr out"
  shows "rws out = map (derived_row (''population'' \<in> set (columns df))) (rws df)"
proof -
  from assms have td: "''total_deaths'' \<in> set (columns df)"
    and tc: "''total_cases'' \<in> set (columns df)"
    using derive_metrics_KeyError[of df] by auto
  show ?thesis
  proof (cases "''population'' \<in> set (columns df)")
    case False
    with assms td tc have "out = assign ''death_rate'' death_rate_of df"
      by (simp add: derive_metrics_no_population)
    with False show ?thesis by (simp add: assign_rws derived_row_def)
  next
    case True
    with assms td tc have "out =
       assign ''deaths_per_million'' deaths_per_million_of
           (assign ''cases_per_million'' cases_per_million_of
             (assign ''death_rate'' death_rate_of df))"
      by (simp add: derive_metrics_population)
    with True show ?thesis by (simp add: assign_rws derived_row_def o_def Let_def)
  qed
qed

lemma derive_metrics_columns:
  assumes "derive_metrics df = Inr out"
  shows "set (columns out)
         = set (columns df)
           \<union> (if ''population'' \<in> set (columns df)
              then {''death_rate'', ''cases_per_million'', ''deaths_per_million''}
              else {''death_rate''})"
proof -
  from assms have td: "''total_deaths'' \<in> set (columns df)"
    and tc: "''total_cases'' \<in> set (columns df)"
    using derive_metrics_KeyError[of df] by auto
  show ?thesis
  proof (cases "''population'' \<in> set (columns df)")
    case False
    with assms td tc have "out = assign ''death_rate'' death_rate_of df"
      by (simp add: derive_metrics_no_population)
    with False show ?thesis by (simp add: assign_columns)
  next
    case True
    with assms td tc have "out =
       assign ''deaths_per_million'' deaths_per_million_of
           (assign ''cases_per_million'' cases_per_million_of
             (assign ''death_rate'' death_rate_of df))"
      by (simp add: derive_metrics_population)
    with True show ?thesis by (simp add: assign_columns insert_commute)
  qed
qed

lemma derive_metrics_column_values:
  assumes "derive_metrics df = Inr out"
  shows "column_values ''death_rate'' out = map death_rate_of (rws df)"
    and "''population'' \<in> set (columns df) \<Longrightarrow>
           column_values ''cases_per_million'' out = map cases_per_million_of (rws df)"
    and "''population'' \<in> set (columns df) \<Longrightarrow>
           column_values ''deaths_per_million'' out = map deaths_per_million_of (rws df)"
    and "map base_columns (rws out) = map base_columns (rws df)"
  by (simp_all add: column_values_def derive_metrics_rws[OF assms] o_def derived_row_simps
      base_columns_def)

lemma derive_metrics_fixed_point:
  assumes "derive_metrics df = Inr out"
  shows "derive_metrics out = Inr out"
proof -
  from assms have td: "''total_deaths'' \<in> set (columns df)"
    and tc: "''total_cases'' \<in> set (columns df)"
    using derive_metrics_KeyError[of df] by auto
  show ?thesis
  proof (cases "''population'' \<in> set (columns df)")
    case False
    from assms td tc False have out: "out = assign ''death_rate'' death_rate_of df"
      by (simp add: derive_metrics_no_population)
    have 1: "''total_deaths'' \<in> set (columns out)" "''total_cases'' \<in> set (columns out)"
      "''population'' \<notin> set (columns out)" "''death_rate'' \<in> set (columns out)"
      using td tc False by (simp_all add: out assign_columns)
    have "\<forall>r\<in>set (rws out). death_rate_of r = vals r ''death_rate''"
      by (simp add: out assign_rws death_rate_of_def)
    with 1 have "assign ''death_rate'' death_rate_of out = out"
      by (intro assign_idem)
    with 1 show ?thesis by (simp add: derive_metrics_no_population)
  next
    case True
    from assms td tc True have out: "out =
       assign ''deaths_per_million'' deaths_per_million_of
           (assign ''cases_per_million'' cases_per_million_of
             (assign ''death_rate'' death_rate_of df))"
      by (simp add: derive_metrics_population)
    have 1: "''total_deaths'' \<in> set (columns out)" "''total_cases'' \<in> set (columns out)"
      "''population'' \<in> set (columns out)" "''death_rate'' \<in> set (columns out)"
      "''cases_per_million'' \<in> set (columns out)" "''deaths_per_million'' \<in> set (columns out)"
      using td tc True by (simp_all add: out assign_columns)
    have a: "\<forall>r\<in>set (rws out). death_rate_of r = vals r ''death_rate''"
      by (simp add: out assign_rws death_rate_of_def)
    have b: "\<forall>r\<in>set (rws out). cases_per_million_of r = vals r ''cases_per_million''"
      by (simp add: out assign_rws cases_per_million_of_def)
    have c: "\<forall>r\<in>set (rws out). deaths_per_million_of r = vals r ''deaths_per_million''"
      by (simp add: out assign_rws deaths_per_million_of_def)
    from 1 a have "assign ''death_rate'' death_rate_of out = out" by (intro assign_idem)
    moreover from 1 b have "assign ''cases_per_million'' cases_per_million_of out = out"
      by (intro assign_idem)
    moreover from 1 c have "assign ''deaths_per_million'' deaths_per_million_of out = out"
      by (intro assign_idem)
    ultimately show ?thesis using 1 by (simp add: derive_metrics_population)
  qed
qed

lemma death_rate_of_base:
  "death_rate_of r = (case base_columns r of (tc, td, p) \<Rightarrow> fmul (fdiv td tc) (Fin 100))"
  "cases_per_million_of r
     = (case base_columns r of (tc, td, p) \<Rightarrow> fmul (fdiv tc p) (Fin 1000000))"
  "deaths_per_million_of r
     = (case base_columns r of (tc, td, p) \<Rightarrow> fmul (fdiv td p) (Fin 1000000))"
  by (simp_all add: death_rate_of_def cases_per_million_of_def deaths_per_million_of_def
      base_columns_def)

lemma map_base_cong:
  assumes "map base_columns xs = map base_columns ys"
  shows "map death_rate_of xs = map death_rate_of ys"
    and "map cases_per_million_of xs = map cases_per_million_of ys"
    and "map deaths_per_million_of xs = map deaths_per_million_of ys"
proof -
  have f: "death_rate_of
      = (\<lambda>b. case b of (tc, td, p) \<Rightarrow> fmul (fdiv td tc) (Fin 100)) \<circ> base_columns"
    by (rule ext) (simp add: death_rate_of_base)
  have g: "cases_per_million_of
      = (\<lambda>b. case b of (tc, td, p) \<Rightarrow> fmul (fdiv tc p) (Fin 1000000)) \<circ> base_columns"
    by (rule ext) (simp add: death_rate_of_base)
  have h: "deaths_per_million_of
      = (\<lambda>b. case b of (tc, td, p) \<Rightarrow> fmul (fdiv td p) (Fin 1000000)) \<circ> base_columns"
    by (rule ext) (simp add: death_rate_of_base)
  show "map death_rate_of xs = map death_rate_of ys"
    by (subst (1 2) f) (simp only: map_map[symmetric] assms)
  show "map cases_per_million_of xs = map cases_per_million_of ys"
    by (subst (1 2) g) (simp only: map_map[symmetric] assms)
  show "map deaths_per_million_of xs = map deaths_per_million_of ys"
    by (subst (1 2) h) (simp only: map_map[symmetric] assms)
qed

lemma complete_cases_rows:
  assumes "complete_cases dfc = Inr cc"
  shows "rws cc = filter (\<lambda>r. vals r ''total_cases'' \<noteq> NaN \<and> vals r ''total_deaths'' \<noteq> NaN)
                   (rws dfc)"
    and "columns cc = columns dfc"
  using assms
  by (auto simp: complete_cases_def dropna_def isnull_def split: list.splits if_splits)


lemma rolling_mean_length: "length (rolling_mean w xs) = length xs"
  by (simp add: rolling_mean_def)

lemma rolling_mean_nth:
  "i < length xs \<Longrightarrow> rolling_mean w xs ! i = window_mean w (window w xs i)"
  by (simp add: rolling_mean_def)

lemma window_short: "i < length xs \<Longrightarrow> Suc i < w \<Longrightarrow> length (window w xs i) < w"
  by (simp add: window_def)

lemma window_full:
  "i < length xs \<Longrightarrow> w \<le> Suc i \<Longrightarrow> window w xs i = take w (drop (Suc i - w) xs)"
  by (simp add: window_def)

lemma window_mean_short: "length win < minp \<Longrightarrow> window_mean minp win = NaN"
proof -
  assume "length win < minp"
  moreover have "length (filter is_fin win) \<le> length win" by simp
  ultimately have "\<not> minp \<le> length (filter is_fin win)" by linarith
  then show ?thesis by (simp add: window_mean_def Let_def)
qed

lemma window_mean_all_fin:
  assumes "length win = minp" and "0 < minp" and "list_all is_fin win"
  shows "window_mean minp win = fdiv (Fin (sum_list (map fin_val win))) (Fin (of_nat minp))"
proof -
  from assms(3) have "filter is_fin win = win"
    by (simp add: filter_id_conv list_all_iff)
  with assms(1,2) show ?thesis by (auto simp: window_mean_def Let_def)
qed

lemma window_mean_not_all_fin:
  assumes "length win \<le> minp" and "\<not> list_all is_fin win"
  shows "window_mean minp win = NaN"
proof -
  from assms(2) obtain x where "x \<in> set win" and "\<not> is_fin x"
    by (auto simp: list_all_iff)
  then have "length (filter is_fin win) < length win"
    by (rule length_filter_less)
  with assms(1) have "\<not> minp \<le> length (filter is_fin win)" by linarith
  then show ?thesis by (simp add: window_mean_def Let_def)
qed

lemma rolling_mean_7_nth:
  assumes "i < length xs"
  shows "rolling_mean 7 xs ! i =
     (if 6 \<le> i \<and> list_all is_fin (take 7 (drop (i - 6) xs))
      then fdiv (Fin (sum_list (map fin_val (take 7 (drop (i - 6) xs))))) (Fin 7)
      else NaN)"
proof (cases "6 \<le> i")
  case False
  then have "Suc i < 7" by simp
  with assms have "window_mean 7 (window 7 xs i) = NaN"
    by (intro window_mean_short window_short)
  with assms False show ?thesis by (simp add: rolling_mean_nth)
next
  case True
  with assms have w: "window 7 xs i = take 7 (drop (i - 6) xs)"
    by (simp add: window_full)
  from assms True have len: "length (take 7 (drop (i - 6) xs)) = 7" by simp
  show ?thesis
  proof (cases "list_all is_fin (take 7 (drop (i - 6) xs))")
    case fin: True
    from window_mean_all_fin[OF len _ fin] assms True fin w show ?thesis
      by (simp add: rolling_mean_nth)
  next
    case nf: False
    from len have "length (take 7 (drop (i - 6) xs)) \<le> 7" by simp
    from window_mean_not_all_fin[OF this nf] assms True nf w show ?thesis
      by (simp add: rolling_mean_nth)
  qed
qed

lemma rolling_mean_7_null:
  assumes "i < length xs" and "j \<le> i" and "i < j + 7" and "\<not> is_fin (xs ! j)"
  shows "rolling_mean 7 xs ! i = NaN"
proof (cases "6 \<le> i")
  case False
  with assms(1) show ?thesis by (simp add: rolling_mean_7_nth)
next
  case True
  let ?win = "take 7 (drop (i - 6) xs)"
  from assms True have k: "j - (i - 6) < 7" and jk: "i - 6 + (j - (i - 6)) = j" by linarith+
  from assms True have "length ?win = 7" by simp
  with k have "?win ! (j - (i - 6)) \<in> set ?win" by (intro nth_mem) simp
  moreover from k assms jk have "?win ! (j - (i - 6)) = xs ! j" by simp
  ultimately have "xs ! j \<in> set ?win" by simp
  with assms(4) have "\<not> list_all is_fin ?win" by (auto simp: list_all_iff)
  with assms(1) show ?thesis by (simp add: rolling_mean_7_nth)
qed

lemma smoothed_run_series:
  assumes "smoothed_run dfc country = Inr (Some ys)"
  shows "ys = rolling_mean 7 (map (\<lambda>r. vals r ''new_cases'')
           (filter (\<lambda>r. vals r ''total_cases'' \<noteq> NaN \<and> vals r ''total_deaths'' \<noteq> NaN)
              (country_data dfc country)))"
proof -
  from assms obtain cl where cl: "df_clean dfc = Inr cl"
    and sm: "new_cases_smoothed cl country = Some ys"
    by (auto simp: smoothed_run_def split: sum.splits)
  from cl obtain cc where cc: "complete_cases dfc = Inr cc" and d: "derive_metrics cc = Inr cl"
    by (auto simp: df_clean_def split: sum.splits)
  from derive_metrics_rows[OF d] obtain upd where
    rows: "rws cl = map upd (rws cc)"
    and loc: "\<And>r. location (upd r) = location r"
    and nc: "\<And>r. vals (upd r) ''new_cases'' = vals r ''new_cases''"
    by blast
  have "country_data cl country = map upd (country_data cc country)"
    by (simp add: country_data_def rows filter_map o_def loc)
  then have "map (\<lambda>r. vals r ''new_cases'') (country_data cl country)
      = map (\<lambda>r. vals r ''new_cases'') (country_data cc country)"
    by (simp add: o_def nc)
  moreover have "country_data cc country
      = filter (\<lambda>r. vals r ''total_cases'' \<noteq> NaN \<and> vals r ''total_deaths'' \<noteq> NaN)
          (country_data dfc country)"
    by (auto simp: country_data_def complete_cases_rows(1)[OF cc] intro: filter_cong)
  moreover from sm have "ys = rolling_mean 7 (map (\<lambda>r. vals r ''new_cases'') (country_data cl country))"
    by (auto simp: new_cases_smoothed_def Let_def split: if_splits)
  ultimately show ?thesis by simp
qed

section \<open>Properties of ingestion\<close>

text \<open>
  C4 (as the notebook has it). When the remote read and the local read both fail, the
  ingestion cell raises nothing: it prints the first error, the notice of the second
  attempt, the second error and a hint, leaves the binding of \<open>df\<close> as it was, and
  completes. When \<open>df\<close> was not bound before (a fresh kernel), the next cell, which reads
  \<open>df\<close>, stops the run with a \<open>NameError\<close>.
\<close>

theorem both_reads_fail:
  "load_data (Inl e1) (Inl e2) e
     = Inr (e\<lparr>stdout := stdout e @ [ErrorURL e1, Attempting, ErrorLocal e2, EnsureFile]\<rparr>)
   \<and> (df_var e = None \<longrightarrow>
        run_cells [load_data (Inl e1) (Inl e2), df_head] e = Inl (NameError ''df''))"
  by (simp add: load_data_def df_head_def)

theorem both_reads_fail_witness:
  "df_var fresh_kernel = None
   \<and> load_data (Inl (Exception ''timed out'')) (Inl (Exception ''No such file'')) fresh_kernel
       = Inr \<lparr>df_var = None,
              stdout = [ErrorURL (Exception ''timed out''), Attempting,
                        ErrorLocal (Exception ''No such file''), EnsureFile]\<rparr>
   \<and> run_cells [load_data (Inl (Exception ''timed out'')) (Inl (Exception ''No such file'')),
                 df_head] fresh_kernel = Inl (NameError ''df'')"
  using both_reads_fail [of "Exception ''timed out''" "Exception ''No such file''" fresh_kernel]
  by (simp add: fresh_kernel_def load_data_def df_head_def)

text \<open>
  C4 as stated asks for an exception out of the ingestion cell. On a fresh kernel, with a
  timed-out fetch and no local file, the cell returns normally.
\<close>

theorem ingestion_error_counterexample:
  "\<not> isl (load_data (Inl (Exception ''timed out'')) (Inl (Exception ''No such file''))
            fresh_kernel)"
  by (simp add: load_data_def)

section \<open>Properties of scoping\<close>

text \<open>
  C7. Scoping keeps the table's columns and exactly the rows whose \<open>location\<close> is one of
  the requested names, whole and in their order; it is a total function, so it has no
  error case. The partition of a requested entity is the same after scoping as before, and
  in particular empty when the table has no row of that entity.
\<close>

theorem scoping_selects_members:
  "columns (df_countries_of names df) = columns df
   \<and> rws (df_countries_of names df)
       = filter (\<lambda>r. \<exists>s\<in>set names. location r = Some s) (rws df)
   \<and> (\<forall>e\<in>set names. country_data df e = []
         \<longrightarrow> country_data (df_countries_of names df) e = [])
   \<and> (\<forall>e\<in>set names. country_data (df_countries_of names df) e = country_data df e)"
proof -
  have eq: "\<And>r. isin (location r) names = (\<exists>s\<in>set names. location r = Some s)"
    by (auto simp: isin_def split: option.splits)
  have part: "\<And>e. e \<in> set names \<Longrightarrow>
      country_data (df_countries_of names df) e = country_data df e"
    by (auto simp: country_data_def df_countries_of_def isin_def intro: filter_cong)
  show ?thesis
    using part by (simp add: df_countries_of_def eq)
qed

theorem scoping_selects_members_witness:
  "rws (df_countries_of [''Kenya'', ''Wakanda''] two_country_frame) = [incomplete_row, complete_row]
   \<and> columns (df_countries_of [''Kenya'', ''Wakanda''] two_country_frame)
       = [''total_cases'', ''total_deaths'']
   \<and> country_data two_country_frame ''Wakanda'' = []
   \<and> country_data (df_countries_of [''Kenya'', ''Wakanda''] two_country_frame) ''Wakanda'' = []"
  using scoping_selects_members [of "[''Kenya'', ''Wakanda'']" two_country_frame]
  by (simp add: two_country_frame_def incomplete_row_def complete_row_def france_row_def
      country_data_def mk_row_def)

section \<open>Properties of completeness filtering\<close>




section \<open>Properties of metric derivation\<close>

lemma derive_metrics_out:
  assumes "derive_metrics df = Inr out"
  shows "\<exists>upd. rws out = map upd (rws df)
     \<and> ''death_rate'' \<in> set (columns out)
     \<and> (\<forall>r. location (upd r) = location r \<and> date (upd r) = date r
            \<and> base_columns (upd r) = base_columns r
            \<and> vals (upd r) ''death_rate'' = death_rate_of r
            \<and> (''population'' \<in> set (columns df) \<longrightarrow>
                 vals (upd r) ''cases_per_million'' = cases_per_million_of r
               \<and> vals (upd r) ''deaths_per_million'' = deaths_per_million_of r)
            \<and> (\<forall>c. c \<noteq> ''death_rate''
                  \<and> (''population'' \<in> set (columns df) \<longrightarrow>
                        c \<noteq> ''cases_per_million'' \<and> c \<noteq> ''deaths_per_million'')
                  \<longrightarrow> vals (upd r) c = vals r c))"
proof -
  from assms have td: "''total_deaths'' \<in> set (columns df)"
    and tc: "''total_cases'' \<in> set (columns df)"
    using derive_metrics_KeyError[of df] by auto
  let ?u1 = "\<lambda>r. r\<lparr>vals := (vals r)(''death_rate'' := death_rate_of r)\<rparr>"
  let ?u2 = "\<lambda>r. r\<lparr>vals := (vals r)(''cases_per_million'' := cases_per_million_of r)\<rparr>"
  let ?u3 = "\<lambda>r. r\<lparr>vals := (vals r)(''deaths_per_million'' := deaths_per_million_of r)\<rparr>"
  show ?thesis
  proof (cases "''population'' \<in> set (columns df)")
    case False
    with assms td tc have out: "out = assign ''death_rate'' death_rate_of df"
      by (simp add: derive_metrics_no_population)
    have "rws out = map ?u1 (rws df)" by (simp add: out assign_rws)
    moreover have "''death_rate'' \<in> set (columns out)" by (simp add: out assign_columns)
    ultimately show ?thesis using False
      by (intro exI[of _ ?u1]) (simp add: base_columns_def)
  next
    case True
    with assms td tc have out: "out =
       assign ''deaths_per_million'' deaths_per_million_of
           (assign ''cases_per_million'' cases_per_million_of
             (assign ''death_rate'' death_rate_of df))"
      by (simp add: derive_metrics_population)
    have "rws out = map (\<lambda>r. ?u3 (?u2 (?u1 r))) (rws df)"
      by (simp add: out assign_rws o_def)
    moreover have "''death_rate'' \<in> set (columns out)" by (simp add: out assign_columns)
    ultimately show ?thesis using True
      by (intro exI[of _ "\<lambda>r. ?u3 (?u2 (?u1 r))"])
         (simp add: base_columns_def cases_per_million_of_def deaths_per_million_of_def)
  qed
qed

lemma derive_metrics_death_rate:
  assumes "derive_metrics df = Inr out"
  shows "column_values ''death_rate'' out = map death_rate_of (rws df)"
    and "map base_columns (rws out) = map base_columns (rws df)"
    and "''death_rate'' \<in> set (columns out)"
    and "map location (rws out) = map location (rws df)"
    and "map date (rws out) = map date (rws df)"
proof -
  from derive_metrics_out[OF assms] obtain upd where
    rows: "rws out = map upd (rws df)" and dr: "''death_rate'' \<in> set (columns out)"
    and u: "\<And>r. location (upd r) = location r" "\<And>r. date (upd r) = date r"
       "\<And>r. base_columns (upd r) = base_columns r"
       "\<And>r. vals (upd r) ''death_rate'' = death_rate_of r"
    by blast
  show "column_values ''death_rate'' out = map death_rate_of (rws df)"
    by (simp add: column_values_def rows o_def u)
  show "map base_columns (rws out) = map base_columns (rws df)"
    by (simp add: rows o_def u)
  show "''death_rate'' \<in> set (columns out)" by (rule dr)
  show "map location (rws out) = map location (rws df)" by (simp add: rows o_def u)
  show "map date (rws out) = map date (rws df)" by (simp add: rows o_def u)
qed

text \<open>
  C1 (as the notebook has it). On a table that has the two total columns, metric
  derivation raises nothing and passes the base columns of every row on unchanged. In
  every row of its output \<open>death_rate\<close> is the binary64 value of
  \<open>total_deaths / total_cases * 100\<close>: the quotient rounded, then the product rounded. It
  is \<open>NaN\<close> exactly when one of the two totals is \<open>NaN\<close>, both are infinite or both are
  zero. When \<open>total_cases\<close> is zero and \<open>total_deaths\<close> is a number other than zero it
  is an infinity, not \<open>NaN\<close>. When both totals are finite, the quotient is not below the
  smallest normal number and the result is finite, the result is within the fraction
  \<open>2 ^ - 51\<close> of the exact value. The instance has a rate that is exact (25), one that is
  not (\<open>7 / 200 * 100\<close> gives 3.5000000000000004), a quotient that overflows, a negative
  zero divisor, and \<open>0 / 0\<close>.
\<close>

theorem death_rate_by_case:
  assumes "''total_deaths'' \<in> set (columns df)" and "''total_cases'' \<in> set (columns df)"
  shows "\<exists>out. derive_metrics df = Inr out
     \<and> map base_columns (rws out) = map base_columns (rws df)
     \<and> (\<forall>r\<in>set (rws out).
          vals r ''death_rate''
            = fmul (fdiv (vals r ''total_deaths'') (vals r ''total_cases'')) (Fin 100)
        \<and> (vals r ''death_rate'' = NaN \<longleftrightarrow>
              vals r ''total_deaths'' = NaN \<or> vals r ''total_cases'' = NaN
              \<or> (is_inf (vals r ''total_deaths'') \<and> is_inf (vals r ''total_cases''))
              \<or> (is_zero (vals r ''total_deaths'') \<and> is_zero (vals r ''total_cases'')))
        \<and> (is_zero (vals r ''total_cases'') \<and> vals r ''total_deaths'' \<noteq> NaN
              \<and> \<not> is_zero (vals r ''total_deaths'')
            \<longrightarrow> is_inf (vals r ''death_rate''))
        \<and> (is_fin (vals r ''total_deaths'') \<and> is_fin (vals r ''total_cases'')
              \<and> pow2 (- 1022) \<le> \<bar>fin_val (vals r ''total_deaths'')\<bar>
                                   / \<bar>fin_val (vals r ''total_cases'')\<bar>
              \<and> is_fin (vals r ''death_rate'')
            \<longrightarrow> \<bar>fin_val (vals r ''death_rate'')
                   - fin_val (vals r ''total_deaths'') / fin_val (vals r ''total_cases'') * 100\<bar>
                 \<le> \<bar>fin_val (vals r ''total_deaths'') / fin_val (vals r ''total_cases'') * 100\<bar>
                     / 2 ^ 51))"
proof -
  from assms obtain out where out: "derive_metrics df = Inr out"
    by (cases "''population'' \<in> set (columns df)")
       (simp_all add: derive_metrics_no_population derive_metrics_population)
  have val: "vals r ''death_rate''
      = fmul (fdiv (vals r ''total_deaths'') (vals r ''total_cases'')) (Fin 100)"
    if "r \<in> set (rws out)" for r
  proof -
    from derive_metrics_out[OF out] obtain upd where
      rows: "rws out = map upd (rws df)"
      and b: "\<And>r. base_columns (upd r) = base_columns r"
      and d: "\<And>r. vals (upd r) ''death_rate'' = death_rate_of r"
      by blast
    from that rows obtain r0 where r: "r = upd r0" by auto
    from b[of r0] have "vals r ''total_deaths'' = vals r0 ''total_deaths''"
      and "vals r ''total_cases'' = vals r0 ''total_cases''"
      by (simp_all add: base_columns_def r)
    with d[of r0] show ?thesis by (simp add: r death_rate_of_def)
  qed
  show ?thesis
  proof (intro exI conjI ballI impI)
    show "derive_metrics df = Inr out" by (rule out)
    show "map base_columns (rws out) = map base_columns (rws df)"
      by (rule derive_metrics_death_rate(2)[OF out])
  next
    fix r assume r: "r \<in> set (rws out)"
    show "vals r ''death_rate''
      = fmul (fdiv (vals r ''total_deaths'') (vals r ''total_cases'')) (Fin 100)"
      by (rule val[OF r])
    show "vals r ''death_rate'' = NaN \<longleftrightarrow>
              vals r ''total_deaths'' = NaN \<or> vals r ''total_cases'' = NaN
              \<or> (is_inf (vals r ''total_deaths'') \<and> is_inf (vals r ''total_cases''))
              \<or> (is_zero (vals r ''total_deaths'') \<and> is_zero (vals r ''total_cases''))"
      by (simp only: val[OF r] death_rate_NaN_iff)
  next
    fix r assume r: "r \<in> set (rws out)"
      and z: "is_zero (vals r ''total_cases'') \<and> vals r ''total_deaths'' \<noteq> NaN
              \<and> \<not> is_zero (vals r ''total_deaths'')"
    then show "is_inf (vals r ''death_rate'')"
      unfolding val[OF r] by (intro death_rate_zero_cases) simp_all
  next
    fix r assume r: "r \<in> set (rws out)"
      and h: "is_fin (vals r ''total_deaths'') \<and> is_fin (vals r ''total_cases'')
              \<and> pow2 (- 1022) \<le> \<bar>fin_val (vals r ''total_deaths'')\<bar>
                                   / \<bar>fin_val (vals r ''total_cases'')\<bar>
              \<and> is_fin (vals r ''death_rate'')"
    then show "\<bar>fin_val (vals r ''death_rate'')
                   - fin_val (vals r ''total_deaths'') / fin_val (vals r ''total_cases'') * 100\<bar>
                 \<le> \<bar>fin_val (vals r ''total_deaths'') / fin_val (vals r ''total_cases'') * 100\<bar>
                     / 2 ^ 51"
      unfolding val[OF r] by (intro death_rate_tolerance) simp_all
  qed
qed

theorem death_rate_by_case_witness:
  "''total_deaths'' \<in> set (columns rounding_frame)
   \<and> ''total_cases'' \<in> set (columns rounding_frame)
   \<and> map_sum id (column_values ''death_rate'') (derive_metrics rounding_frame)
       = Inr [Fin 25, Fin (7881299347898369 / 2251799813685248), PInf, NInf, NaN]"
  using death_rate_by_case [of rounding_frame]
  by (simp add: rounding_frame_def ev2 rounding_frame_cells overflow_cell)

text \<open>
  C1 as stated fails on a row with no cases and five deaths: the row passes the
  completeness filter and its \<open>death_rate\<close> is plus infinity, not \<open>NaN\<close>.
\<close>

theorem death_rate_nan_counterexample:
  "column_values ''total_cases'' zero_cases_frame = [Fin 0]
   \<and> map_sum id (column_values ''death_rate'') (df_clean zero_cases_frame) = Inr [PInf]"
  by (simp add: zero_cases_frame_def ev fl_ev)

text \<open>
  C8 (as the notebook has it). On a table that has the two total columns, metric
  derivation raises nothing and keeps the rows, their labels and their dates. The columns
  of its output are those of the input and \<open>death_rate\<close>, and also \<open>cases_per_million\<close>
  and \<open>deaths_per_million\<close> when the input has a \<open>population\<close> column; then the two
  are the binary64 value of \<open>count / population * 1000000\<close> of the same row. Every field
  that is not written is passed on unchanged. So without a \<open>population\<close> column the two
  per-million columns are not computed, and one of them is in the output exactly if the
  input already had a column of that name, with the input's values.
\<close>

theorem per_million_iff_population:
  assumes "''total_deaths'' \<in> set (columns df)" and "''total_cases'' \<in> set (columns df)"
  shows "\<exists>out. derive_metrics df = Inr out
     \<and> length (rws out) = length (rws df)
     \<and> set (columns out)
         = set (columns df)
           \<union> (if ''population'' \<in> set (columns df)
              then {''death_rate'', ''cases_per_million'', ''deaths_per_million''}
              else {''death_rate''})
     \<and> (\<forall>i<length (rws df).
           location (rws out ! i) = location (rws df ! i)
         \<and> date (rws out ! i) = date (rws df ! i)
         \<and> (''population'' \<in> set (columns df) \<longrightarrow>
               vals (rws out ! i) ''cases_per_million''
                 = fmul (fdiv (vals (rws df ! i) ''total_cases'') (vals (rws df ! i) ''population''))
                     (Fin 1000000)
             \<and> vals (rws out ! i) ''deaths_per_million''
                 = fmul (fdiv (vals (rws df ! i) ''total_deaths'') (vals (rws df ! i) ''population''))
                     (Fin 1000000))
         \<and> (\<forall>c. c \<noteq> ''death_rate''
                \<and> (''population'' \<in> set (columns df) \<longrightarrow>
                      c \<noteq> ''cases_per_million'' \<and> c \<noteq> ''deaths_per_million'')
              \<longrightarrow> vals (rws out ! i) c = vals (rws df ! i) c))"
proof -
  from derive_metrics_total[OF assms] obtain out where out: "derive_metrics df = Inr out" ..
  note rows = derive_metrics_rws[OF out]
  show ?thesis
  proof (intro exI[of _ out] conjI allI impI)
    show "derive_metrics df = Inr out" by (rule out)
    show "length (rws out) = length (rws df)" by (simp add: rows)
    show "set (columns out)
         = set (columns df)
           \<union> (if ''population'' \<in> set (columns df)
              then {''death_rate'', ''cases_per_million'', ''deaths_per_million''}
              else {''death_rate''})"
      by (rule derive_metrics_columns[OF out])
  next
    fix i assume i: "i < length (rws df)"
    then show "location (rws out ! i) = location (rws df ! i)"
      and "date (rws out ! i) = date (rws df ! i)"
      by (simp_all add: rows derived_row_simps)
  next
    fix i assume i: "i < length (rws df)" and p: "''population'' \<in> set (columns df)"
    then show "vals (rws out ! i) ''cases_per_million''
                 = fmul (fdiv (vals (rws df ! i) ''total_cases'') (vals (rws df ! i) ''population''))
                     (Fin 1000000)"
      and "vals (rws out ! i) ''deaths_per_million''
                 = fmul (fdiv (vals (rws df ! i) ''total_deaths'') (vals (rws df ! i) ''population''))
                     (Fin 1000000)"
      by (simp_all add: rows derived_row_simps cases_per_million_of_def
          deaths_per_million_of_def)
  next
    fix i c assume i: "i < length (rws df)"
      and c: "c \<noteq> ''death_rate''
                \<and> (''population'' \<in> set (columns df) \<longrightarrow>
                      c \<noteq> ''cases_per_million'' \<and> c \<noteq> ''deaths_per_million'')"
    then show "vals (rws out ! i) c = vals (rws df ! i) c"
      by (auto simp: rows derived_row_simps)
  qed
qed

theorem per_million_iff_population_witness:
  "map_sum id columns (derive_metrics pop_frame)
     = Inr [''total_cases'', ''total_deaths'', ''population'', ''death_rate'',
            ''cases_per_million'', ''deaths_per_million'']
   \<and> map_sum id (column_values ''cases_per_million'') (derive_metrics pop_frame)
     = Inr [Fin (15625 / 32), Fin (15625 / 32)]
   \<and> map_sum id (column_values ''deaths_per_million'') (derive_metrics pop_frame)
     = Inr [Fin (15625 / 4096), Fin (15625 / 4096)]
   \<and> map_sum id columns (derive_metrics mixed_frame)
     = Inr [''total_cases'', ''total_deaths'', ''death_rate'']"
  using per_million_iff_population [of pop_frame] per_million_iff_population [of mixed_frame]
  by (simp add: pop_frame_def mixed_frame_def ev2 cases_per_million_of_def
      deaths_per_million_of_def pop_frame_cells)

text \<open>
  C8 as stated has the two columns absent from the output whenever \<open>population\<close> is
  absent. A table without a \<open>population\<close> column that already has a
  \<open>cases_per_million\<close> column keeps it, with its values.
\<close>

theorem per_million_absent_counterexample:
  "''population'' \<notin> set (columns carried_frame)
   \<and> map_sum id columns (derive_metrics carried_frame)
       = Inr [''total_cases'', ''total_deaths'', ''cases_per_million'', ''death_rate'']
   \<and> map_sum id (column_values ''cases_per_million'') (derive_metrics carried_frame)
       = Inr [Fin 42]"
  by (simp add: carried_frame_def ev2)

text \<open>
  C9. Metric derivation raises only when one of the two total columns is missing. When it
  returns a table, applying it to that table returns the same table. The derived columns
  of the output are the formulas evaluated on the base columns of the input's rows,
  whatever the input held under the derived names, and the base columns are passed on
  unchanged; so every table with the same columns and the same base columns, row by row,
  gets the same derived columns. The instance starts from a table whose \<open>death_rate\<close>
  column holds 99 in both rows.
\<close>

theorem derive_metrics_idempotent:
  "case derive_metrics df of
     Inl e \<Rightarrow> ''total_deaths'' \<notin> set (columns df) \<or> ''total_cases'' \<notin> set (columns df)
   | Inr out \<Rightarrow>
       derive_metrics out = Inr out
     \<and> ''death_rate'' \<in> set (columns out)
     \<and> map base_columns (rws out) = map base_columns (rws df)
     \<and> column_values ''death_rate'' out
         = map (\<lambda>r. fmul (fdiv (vals r ''total_deaths'') (vals r ''total_cases'')) (Fin 100))
             (rws df)
     \<and> (''population'' \<in> set (columns df) \<longrightarrow>
           column_values ''cases_per_million'' out
             = map (\<lambda>r. fmul (fdiv (vals r ''total_cases'') (vals r ''population''))
                          (Fin 1000000)) (rws df)
         \<and> column_values ''deaths_per_million'' out
             = map (\<lambda>r. fmul (fdiv (vals r ''total_deaths'') (vals r ''population''))
                          (Fin 1000000)) (rws df))
     \<and> (\<forall>df'. columns df' = columns df
              \<and> map base_columns (rws df') = map base_columns (rws df)
           \<longrightarrow> (\<exists>out'. derive_metrics df' = Inr out'
                 \<and> column_values ''death_rate'' out' = column_values ''death_rate'' out
                 \<and> (''population'' \<in> set (columns df) \<longrightarrow>
                       column_values ''cases_per_million'' out'
                         = column_values ''cases_per_million'' out
                     \<and> column_values ''deaths_per_million'' out'
                         = column_values ''deaths_per_million'' out)))"
proof (cases "derive_metrics df")
  case (Inl e)
  have "''total_deaths'' \<notin> set (columns df) \<or> ''total_cases'' \<notin> set (columns df)"
  proof (rule ccontr)
    assume "\<not> ?thesis"
    then have "\<exists>out. derive_metrics df = Inr out" by (intro derive_metrics_total) simp_all
    with Inl show False by simp
  qed
  with Inl show ?thesis by simp
next
  case (Inr out)
  note cv = derive_metrics_column_values[OF Inr]
  have td: "''total_deaths'' \<in> set (columns df)" and tc: "''total_cases'' \<in> set (columns df)"
    using Inr derive_metrics_KeyError[of df] by auto
  have a: "derive_metrics out = Inr out" by (rule derive_metrics_fixed_point[OF Inr])
  have b: "''death_rate'' \<in> set (columns out)"
    by (simp add: derive_metrics_columns[OF Inr])
  have c: "column_values ''death_rate'' out
         = map (\<lambda>r. fmul (fdiv (vals r ''total_deaths'') (vals r ''total_cases'')) (Fin 100))
             (rws df)"
    using cv(1) by (simp add: death_rate_of_def[abs_def])
  have d: "column_values ''cases_per_million'' out
             = map (\<lambda>r. fmul (fdiv (vals r ''total_cases'') (vals r ''population''))
                          (Fin 1000000)) (rws df)
         \<and> column_values ''deaths_per_million'' out
             = map (\<lambda>r. fmul (fdiv (vals r ''total_deaths'') (vals r ''population''))
                          (Fin 1000000)) (rws df)"
    if "''population'' \<in> set (columns df)"
    using cv(2,3)[OF that]
    by (simp add: cases_per_million_of_def[abs_def] deaths_per_million_of_def[abs_def])
  have e: "\<exists>out'. derive_metrics df' = Inr out'
                 \<and> column_values ''death_rate'' out' = column_values ''death_rate'' out
                 \<and> (''population'' \<in> set (columns df) \<longrightarrow>
                       column_values ''cases_per_million'' out'
                         = column_values ''cases_per_million'' out
                     \<and> column_values ''deaths_per_million'' out'
                         = column_values ''deaths_per_million'' out)"
    if h: "columns df' = columns df \<and> map base_columns (rws df') = map base_columns (rws df)"
    for df'
  proof -
    from h td tc have "\<exists>out'. derive_metrics df' = Inr out'"
      by (intro derive_metrics_total) simp_all
    then obtain out' where o': "derive_metrics df' = Inr out'" ..
    note cv' = derive_metrics_column_values[OF o']
    from h have m: "map base_columns (rws df') = map base_columns (rws df)" by simp
    have "column_values ''death_rate'' out' = column_values ''death_rate'' out"
      by (simp only: cv'(1) cv(1) map_base_cong(1)[OF m])
    moreover have "column_values ''cases_per_million'' out'
                         = column_values ''cases_per_million'' out
                     \<and> column_values ''deaths_per_million'' out'
                         = column_values ''deaths_per_million'' out"
      if p: "''population'' \<in> set (columns df)"
    proof -
      from p h have p': "''population'' \<in> set (columns df')" by simp
      show ?thesis
        by (simp only: cv'(2,3)[OF p'] cv(2,3)[OF p] map_base_cong(2,3)[OF m])
    qed
    ultimately show ?thesis using o' by blast
  qed
  from a b c d e cv(4) show ?thesis by (simp add: Inr)
qed

theorem derive_metrics_idempotent_witness:
  "column_values ''death_rate'' stale_pop_frame = [Fin 99, Fin 99]
   \<and> map_sum id (column_values ''death_rate'') (derive_metrics stale_pop_frame)
       = Inr [Fin (25 / 32), Fin (25 / 32)]
   \<and> map_sum id (column_values ''death_rate'') (derive_metrics pop_frame)
       = Inr [Fin (25 / 32), Fin (25 / 32)]
   \<and> derive_metrics (projr (derive_metrics stale_pop_frame)) = derive_metrics stale_pop_frame"
proof -
  have ex: "\<exists>out. derive_metrics stale_pop_frame = Inr out"
    by (intro derive_metrics_total) (simp_all add: stale_pop_frame_def)
  then obtain out where out: "derive_metrics stale_pop_frame = Inr out" ..
  from derive_metrics_idempotent [of stale_pop_frame]
  have fp: "derive_metrics out = Inr out" by (simp add: out)
  have "column_values ''death_rate'' stale_pop_frame = [Fin 99, Fin 99]"
    by (simp add: stale_pop_frame_def column_values_def mk_row_def)
  moreover have "map_sum id (column_values ''death_rate'') (derive_metrics stale_pop_frame)
       = Inr [Fin (25 / 32), Fin (25 / 32)]"
    by (simp add: stale_pop_frame_def ev2 cases_per_million_of_def
        deaths_per_million_of_def pop_frame_cells)
  moreover have "map_sum id (column_values ''death_rate'') (derive_metrics pop_frame)
       = Inr [Fin (25 / 32), Fin (25 / 32)]"
    by (simp add: pop_frame_def ev2 cases_per_million_of_def
        deaths_per_million_of_def pop_frame_cells)
  moreover have "derive_metrics (projr (derive_metrics stale_pop_frame))
       = derive_metrics stale_pop_frame"
    using fp by (simp add: out)
  ultimately show ?thesis by (intro conjI)
qed

section \<open>Properties of the rolling averages\<close>

text \<open>
  C2 (as the notebook has it). For an entity that has rows, in a table with a
  \<open>new_cases\<close> column, the cell produces a smoothed series with one entry per row of the
  entity, in the order of the table, and all these rows carry the entity's label. The
  first six entries are \<open>NaN\<close> (all of them when the entity has fewer than seven rows).
  A later entry is \<open>NaN\<close> when the seven-row window that ends at it holds a
  \<open>new_cases\<close> that is not a finite number. When the seven values are finite, and the
  finite values of the entity's series are whole numbers of magnitude at most \<open>2 ^ 50\<close>,
  the entry is the binary64 quotient of their sum by 7. The series is determined by the
  rows of the entity alone: every table with the same rows for the entity gives the same
  series. Nothing is said about the order of dates: the cell does not sort.
\<close>

theorem new_cases_smoothed_windows:
  assumes "country_data df country \<noteq> []" and "''new_cases'' \<in> set (columns df)"
  shows "\<exists>ys. new_cases_smoothed df country = Some ys
    \<and> (\<forall>r\<in>set (country_data df country). location r = Some country)
    \<and> length ys = length (country_data df country)
    \<and> (\<forall>i<length ys. i < 6 \<longrightarrow> ys ! i = NaN)
    \<and> (\<forall>i<length ys. 6 \<le> i \<longrightarrow>
          (let xs = map (\<lambda>r. vals r ''new_cases'') (country_data df country);
               win = take 7 (drop (i - 6) xs)
           in (\<not> list_all is_fin win \<longrightarrow> ys ! i = NaN)
            \<and> (list_all is_fin win \<and> whole_counts xs
                 \<longrightarrow> ys ! i = fdiv (Fin (sum_list (map fin_val win))) (Fin 7))))
    \<and> (\<forall>df'. country_data df' country = country_data df country
              \<and> ''new_cases'' \<in> set (columns df')
           \<longrightarrow> new_cases_smoothed df' country = Some ys)"
proof -
  let ?xs = "map (\<lambda>r. vals r ''new_cases'') (country_data df country)"
  define ys where "ys = rolling_mean 7 ?xs"
  from assms have sm: "new_cases_smoothed df country = Some ys"
    by (simp add: new_cases_smoothed_def Let_def ys_def)
  have a: "\<forall>r\<in>set (country_data df country). location r = Some country"
    by (simp add: country_data_def)
  have b: "length ys = length (country_data df country)"
    by (simp add: ys_def rolling_mean_length)
  have c: "\<forall>i<length ys. i < 6 \<longrightarrow> ys ! i = NaN"
    by (simp add: ys_def rolling_mean_length rolling_mean_7_nth)
  have d: "\<forall>i<length ys. 6 \<le> i \<longrightarrow>
          (let xs = ?xs; win = take 7 (drop (i - 6) xs)
           in (\<not> list_all is_fin win \<longrightarrow> ys ! i = NaN)
            \<and> (list_all is_fin win \<and> whole_counts xs
                 \<longrightarrow> ys ! i = fdiv (Fin (sum_list (map fin_val win))) (Fin 7)))"
    by (simp add: ys_def rolling_mean_length rolling_mean_7_nth Let_def)
  have e: "\<forall>df'. country_data df' country = country_data df country
              \<and> ''new_cases'' \<in> set (columns df')
           \<longrightarrow> new_cases_smoothed df' country = Some ys"
    using assms(1) by (simp add: new_cases_smoothed_def Let_def ys_def)
  from sm a b c d e show ?thesis by blast
qed

theorem new_cases_smoothed_windows_witness:
  "length (country_data gap_frame ''Kenya'') = 9
   \<and> ''new_cases'' \<in> set (columns gap_frame)
   \<and> whole_counts (map (\<lambda>r. vals r ''new_cases'') (country_data gap_frame ''Kenya''))
   \<and> new_cases_smoothed gap_frame ''Kenya''
       = Some [NaN, NaN, NaN, NaN, NaN, NaN, Fin 1, NaN, NaN]"
  using new_cases_smoothed_windows [of gap_frame "''Kenya''"]
  by (simp add: gap_frame_def ev whole_counts_def mean_cells)

text \<open>
  C2 as stated asks for exactly six leading \<open>NaN\<close> entries. An entity with eight rows
  whose first \<open>new_cases\<close> is missing has seven.
\<close>

theorem smoothed_leading_nans_counterexample:
  "smoothed_run late_null_frame ''Kenya'' = Inr (Some [NaN, NaN, NaN, NaN, NaN, NaN, NaN, Fin 1])
   \<and> leading_nans [NaN, NaN, NaN, NaN, NaN, NaN, NaN, Fin 1] = 7"
  by (simp add: late_null_frame_def ev mean_cells)

text \<open>
  C10. Started from \<open>df_countries\<close>, the smoothed column of an entity runs over all rows of
  the entity in which \<open>total_cases\<close> and \<open>total_deaths\<close> are not null, whether or not
  \<open>new_cases\<close> is null in them; and it is \<open>NaN\<close> at every position whose trailing
  seven-entry window contains a row with a null \<open>new_cases\<close>. In the instance below the
  null is in the eighth row, and the eighth and ninth entries are \<open>NaN\<close>.
\<close>

theorem null_new_cases_reach_smoothed:
  assumes "smoothed_run dfc country = Inr (Some ys)"
  shows "length ys = length (filter (\<lambda>r. vals r ''total_cases'' \<noteq> NaN \<and> vals r ''total_deaths'' \<noteq> NaN)
                        (country_data dfc country))
    \<and> (\<forall>i<length ys. \<forall>j\<le>i. i < j + 7
          \<and> vals (filter (\<lambda>r. vals r ''total_cases'' \<noteq> NaN \<and> vals r ''total_deaths'' \<noteq> NaN)
                     (country_data dfc country) ! j) ''new_cases'' = NaN
          \<longrightarrow> ys ! i = NaN)"
proof -
  let ?rs = "filter (\<lambda>r. vals r ''total_cases'' \<noteq> NaN \<and> vals r ''total_deaths'' \<noteq> NaN)
               (country_data dfc country)"
  let ?xs = "map (\<lambda>r. vals r ''new_cases'') ?rs"
  have ys: "ys = rolling_mean 7 ?xs" by (rule smoothed_run_series[OF assms])
  have len: "length ys = length ?rs" by (simp add: ys rolling_mean_length)
  have "ys ! i = NaN" if "i < length ys" "j \<le> i" "i < j + 7" "vals (?rs ! j) ''new_cases'' = NaN"
    for i j
  proof -
    from that len have "i < length ?xs" and "j < length ?rs" by simp_all
    moreover from this that(4) have "\<not> is_fin (?xs ! j)" by simp
    ultimately show ?thesis
      unfolding ys using that(2,3) by (intro rolling_mean_7_null)
  qed
  with len show ?thesis by blast
qed

theorem null_new_cases_reach_smoothed_witness:
  "smoothed_run gap_frame ''Kenya'' = Inr (Some [NaN, NaN, NaN, NaN, NaN, NaN, Fin 1, NaN, NaN])
   \<and> map (\<lambda>r. vals r ''new_cases'') (country_data gap_frame ''Kenya'') ! 7 = NaN"
  using null_new_cases_reach_smoothed
          [of gap_frame "''Kenya''" "[NaN, NaN, NaN, NaN, NaN, NaN, Fin 1, NaN, NaN]"]
  by (simp add: gap_frame_def ev mean_cells)

text \<open>
  C3. The rolling cells do not sort: the window runs over the entity's rows in the order of
  the file. In a file where the row dated 8 comes first, the point plotted at date 6 is
  the mean of the values dated 8, 1, 2, 3, 4, 5 and 6. The same rows put in ascending date
  order first give other points.
\<close>

theorem rolling_in_file_order:
  "plotted_run unsorted_frame ''Kenya''
     = Inr (Some [(Some 8, NaN), (Some 1, NaN), (Some 2, NaN), (Some 3, NaN), (Some 4, NaN),
                  (Some 5, NaN), (Some 6, Fin (8122563613650359 / 562949953421312)), (Some 7, Fin 4)])
   \<and> plotted_run (sort_values_date unsorted_frame) ''Kenya''
     = Inr (Some [(Some 1, NaN), (Some 2, NaN), (Some 3, NaN), (Some 4, NaN), (Some 5, NaN),
                  (Some 6, NaN), (Some 7, Fin 4),
                  (Some 8, Fin (8605092145154341 / 562949953421312))])"
  by (simp add: unsorted_frame_def ev plotted_run_def plotted_new_cases_def
      sort_values_date_def mean_cells)

section \<open>Properties of the latest row per entity\<close>

text \<open>
  C5. \<open>GroupBy.last\<close> does not return a row of the table. An entity has a row dated 1
  with \<open>new_cases\<close> 5 and a row dated 2 with \<open>new_cases\<close> missing; its entry in
  \<open>latest_data\<close> has the date 2 and the \<open>new_cases\<close> 5 of the earlier row.
\<close>

theorem latest_data_mixes_rows:
  "map (date_and ''new_cases'') (rws stale_frame) = [(Some 1, Fin 5), (Some 2, NaN)]
   \<and> map_sum id (map_option (date_and ''new_cases'')) (latest_run stale_frame ''Kenya'')
       = Inr (Some (Some 2, Fin 5))"
  by (simp add: stale_frame_def ev latest_run_def latest_data_def groupby_last_def
      sort_values_date_def last_valid_def last_date_def date_and_def)

end
